theory Spec2Isabelle
  imports Main "HOL-Library.Word" "HOL-Library.Sublist"
begin

unbundle bit_operations_syntax

section \<open>The IP filter parser thread (filterparserthread.cpp)\<close>

text \<open>
  The development embeds \<^verbatim>\<open>src/base/bittorrent/private/filterparserthread.cpp\<close>:
  the address helper \<^verbatim>\<open>parseIPAddress\<close>, the three file parsers
  (\<^verbatim>\<open>parseDATFilterFile\<close>, \<^verbatim>\<open>parseP2PFilterFile\<close>, \<^verbatim>\<open>parseP2BFilterFile\<close>),
  the stream helper \<^verbatim>\<open>getlineInStream\<close> and the thread body \<^verbatim>\<open>run\<close>.

  Texts (\<^verbatim>\<open>QByteArray\<close>, \<^verbatim>\<open>QString\<close>, file contents) are lists of 8-bit characters.
  A \<^verbatim>\<open>QString\<close> made from bytes holds the same characters up to the first NUL; the
  decoding of bytes above 7F as UTF-8, and the further white space that Unicode knows,
  are left out, so the texts meant are ASCII texts. Library calls of Qt, Boost.Asio and
  libtorrent are modelled by the small functions of the next subsections, each with the
  documented behaviour it stands for. The \<^verbatim>\<open>qDebug\<close> traces are left out; the
  messages given to the logger are kept.
\<close>

subsection \<open>Text primitives of the Qt containers\<close>

text \<open>Whitespace of \<^verbatim>\<open>trimmed()\<close> in the ASCII range: tab, LF, VT, FF, CR and space.\<close>

definition isspace :: "char \<Rightarrow> bool" where
  "isspace c \<longleftrightarrow> c = CHR '' '' \<or> c = CHR 0x09 \<or> c = CHR 0x0A \<or> c = CHR 0x0B
     \<or> c = CHR 0x0C \<or> c = CHR 0x0D"

definition trimmed :: "string \<Rightarrow> string" where
  "trimmed s = rev (dropWhile isspace (rev (dropWhile isspace s)))"

text \<open>
  \<^verbatim>\<open>QByteArray::split(sep)\<close>: cuts at every occurrence of the separator and keeps
  empty parts, so the result always has at least one element.
\<close>

fun qsplit :: "char \<Rightarrow> string \<Rightarrow> string list" where
  "qsplit sep [] = [[]]"
| "qsplit sep (c # cs) =
     (if c = sep then [] # qsplit sep cs
      else (case qsplit sep cs of [] \<Rightarrow> [[c]] | p # ps \<Rightarrow> (c # p) # ps))"

text \<open>\<^verbatim>\<open>QString::split(sep, QString::SkipEmptyParts)\<close>.\<close>

definition qsplit_skip_empty :: "char \<Rightarrow> string \<Rightarrow> string list" where
  "qsplit_skip_empty sep s = filter (\<lambda>p. p \<noteq> []) (qsplit sep s)"

text \<open>\<^verbatim>\<open>QStringList::join(sep)\<close>.\<close>

fun qjoin :: "string \<Rightarrow> string list \<Rightarrow> string" where
  "qjoin sep [] = []"
| "qjoin sep [p] = p"
| "qjoin sep (p # q # ps) = p @ sep @ qjoin sep (q # ps)"

definition startsWith :: "string \<Rightarrow> string \<Rightarrow> bool" where
  "startsWith s p \<longleftrightarrow> take (length p) s = p"

text \<open>ASCII lower-casing, for \<^verbatim>\<open>endsWith(suffix, Qt::CaseInsensitive)\<close>.\<close>

definition toLower :: "char \<Rightarrow> char" where
  "toLower c = (if 65 \<le> (of_char c :: nat) \<and> (of_char c :: nat) \<le> 90
                then char_of ((of_char c :: nat) + 32) else c)"

definition endsWith_ci :: "string \<Rightarrow> string \<Rightarrow> bool" where
  "endsWith_ci s suf \<longleftrightarrow>
     length suf \<le> length s \<and>
     map toLower (drop (length s - length suf) s) = map toLower suf"

text \<open>
  A C string ends at its first NUL: \<^verbatim>\<open>constData()\<close> handed to a \<^verbatim>\<open>const char *\<close>
  parameter, and the conversion of a \<^verbatim>\<open>QByteArray\<close> into a \<^verbatim>\<open>QString\<close>.
\<close>

definition c_str :: "string \<Rightarrow> string" where
  "c_str s = takeWhile (\<lambda>c. c \<noteq> CHR 0x00) s"

definition isdigit :: "char \<Rightarrow> bool" where
  "isdigit c \<longleftrightarrow> 48 \<le> (of_char c :: nat) \<and> (of_char c :: nat) \<le> 57"

definition digit_value :: "char \<Rightarrow> int" where
  "digit_value c = (of_char c :: int) - 48"

definition decimal_value :: "string \<Rightarrow> int" where
  "decimal_value ds = foldl (\<lambda>acc c. acc * 10 + digit_value c) 0 ds"

text \<open>
  \<^verbatim>\<open>QByteArray::toInt(bool *ok = nullptr, int base = 10)\<close>: the NUL-terminated text,
  surrounding whitespace allowed, an optional sign, at least one decimal digit and nothing
  else; the value must fit a 32-bit \<^verbatim>\<open>int\<close>. \<open>toInt_ok\<close> is the conversion with its
  \<^verbatim>\<open>ok\<close> flag (\<open>None\<close> when the conversion fails); \<open>toInt\<close> is the value the caller
  sees, which is 0 on failure.
\<close>

definition toInt_ok :: "string \<Rightarrow> int option" where
  "toInt_ok s =
     (let t = dropWhile isspace (c_str s);
          neg = (t \<noteq> [] \<and> hd t = CHR ''-'');
          u = (if t \<noteq> [] \<and> (hd t = CHR ''-'' \<or> hd t = CHR ''+'') then tl t else t);
          ds = takeWhile isdigit u;
          rest = dropWhile isspace (dropWhile isdigit u);
          v = (if neg then - decimal_value ds else decimal_value ds)
      in if ds = [] \<or> rest \<noteq> [] then None
         else if v < - (2 ^ 31) \<or> 2 ^ 31 - 1 < v then None
         else Some v)"

definition toInt :: "string \<Rightarrow> int" where
  "toInt s = (case toInt_ok s of None \<Rightarrow> 0 | Some v \<Rightarrow> v)"

subsection \<open>Addresses and the address-literal parser of the library\<close>

text \<open>\<^verbatim>\<open>libt::address\<close>: an IPv4 (32-bit) or an IPv6 (128-bit) value.\<close>

datatype address = V4 "32 word" | V6 "128 word"

fun is_v4 :: "address \<Rightarrow> bool" where
  "is_v4 (V4 _) = True"
| "is_v4 (V6 _) = False"

fun is_v6 :: "address \<Rightarrow> bool" where
  "is_v6 (V4 _) = False"
| "is_v6 (V6 _) = True"

text \<open>
  The parsers below take the library's address-literal parser
  (\<^verbatim>\<open>libt::address::from_string\<close>, with \<open>None\<close> for a set error code) as a parameter
  of this type, so that the general results hold for every such parser.
\<close>

type_synonym addr_parser = "string \<Rightarrow> address option"

text \<open>
  A concrete parser for the examples, after POSIX \<^verbatim>\<open>inet_pton\<close>, which
  \<^verbatim>\<open>from_string\<close> tries for IPv6 first and for IPv4 second. The IPv4 form is exactly
  four decimal fields of value at most 255, a field of several digits not starting with
  0. The IPv6 form is up to eight fields of one to four hexadecimal digits, at most one
  \<^verbatim>\<open>::\<close>, and optionally a dotted IPv4 tail. Scope identifiers are not modelled.
\<close>

definition octet_ok :: "string \<Rightarrow> bool" where
  "octet_ok p \<longleftrightarrow> p \<noteq> [] \<and> (\<forall>c \<in> set p. isdigit c) \<and> (length p = 1 \<or> hd p \<noteq> CHR ''0'')
     \<and> length p \<le> 3 \<and> decimal_value p \<le> 255"

definition inet_pton4 :: "string \<Rightarrow> 32 word option" where
  "inet_pton4 s =
     (let ps = qsplit CHR ''.'' s
      in if length ps = 4 \<and> (\<forall>p \<in> set ps. octet_ok p)
         then Some (foldl (\<lambda>w p. push_bit 8 w OR word_of_int (decimal_value p)) 0 ps)
         else None)"

definition hex_digit_value :: "char \<Rightarrow> int option" where
  "hex_digit_value c =
     (let n = (of_char c :: int)
      in if 48 \<le> n \<and> n \<le> 57 then Some (n - 48)
         else if 97 \<le> n \<and> n \<le> 102 then Some (n - 87)
         else if 65 \<le> n \<and> n \<le> 70 then Some (n - 55)
         else None)"

text \<open>
  The scanning loop of \<^verbatim>\<open>inet_pton6\<close>: \<open>curtok\<close> is the text from the start of the
  current field, \<open>tp\<close> the 16-bit fields stored so far, \<open>colonp\<close> the position of
  \<^verbatim>\<open>::\<close>, \<open>val\<close> and \<open>seen\<close> the value and the digit count of the current field.
\<close>

fun pton6_loop ::
  "string \<Rightarrow> string \<Rightarrow> int list \<Rightarrow> nat option \<Rightarrow> int \<Rightarrow> nat \<Rightarrow> (int list \<times> nat option) option"
where
  "pton6_loop curtok [] tp colonp val seen =
     (if seen > 0 then (if length tp + 1 > 8 then None else Some (tp @ [val], colonp))
      else Some (tp, colonp))"
| "pton6_loop curtok (ch # src) tp colonp val seen =
     (case hex_digit_value ch of
        Some d \<Rightarrow>
          (if seen = 4 then None
           else pton6_loop curtok src tp colonp (val * 16 + d) (seen + 1))
      | None \<Rightarrow>
          (if ch = CHR '':'' then
             (if seen = 0 then
                (if colonp \<noteq> None then None
                 else pton6_loop src src tp (Some (length tp)) val seen)
              else if src = [] then None
              else if length tp + 1 > 8 then None
              else pton6_loop src src (tp @ [val]) colonp 0 0)
           else if ch = CHR ''.'' \<and> length tp + 2 \<le> 8 then
             (case inet_pton4 curtok of
                Some w \<Rightarrow> Some (tp @ [uint (drop_bit 16 w), uint (take_bit 16 w)], colonp)
              | None \<Rightarrow> None)
           else None))"

definition inet_pton6 :: "string \<Rightarrow> 128 word option" where
  "inet_pton6 s =
     (if s = [] then None
      else if hd s = CHR '':'' \<and> (tl s = [] \<or> hd (tl s) \<noteq> CHR '':'') then None
      else
        (case pton6_loop (if hd s = CHR '':'' then tl s else s)
                (if hd s = CHR '':'' then tl s else s) [] None 0 0 of
           None \<Rightarrow> None
         | Some (tp, colonp) \<Rightarrow>
             (let fields =
                (case colonp of
                   None \<Rightarrow> Some tp
                 | Some k \<Rightarrow>
                     if length tp = 8 then None
                     else Some (take k tp @ replicate (8 - length tp) 0 @ drop k tp))
              in case fields of
                   None \<Rightarrow> None
                 | Some fs \<Rightarrow>
                     if length fs \<noteq> 8 then None
                     else Some (foldl (\<lambda>w f. push_bit 16 w OR word_of_int f) 0 fs))))"

definition from_string :: addr_parser where
  "from_string s =
     (case inet_pton6 s of
        Some w \<Rightarrow> Some (V6 w)
      | None \<Rightarrow> (case inet_pton4 s of Some w \<Rightarrow> Some (V4 w) | None \<Rightarrow> None))"

subsection \<open>parseIPAddress\<close>

text \<open>
  The loop body of \<^verbatim>\<open>parseIPAddress\<close> on one octet: a leading \<^verbatim>\<open>0\<close> is removed
  when the octet has more than one character, and a second one when the octet has more
  than two.
\<close>

definition strip_octet :: "string \<Rightarrow> string" where
  "strip_octet octet =
     (if hd octet = CHR ''0'' \<and> length octet > 1 then
        (if octet ! 1 = CHR ''0'' \<and> length octet > 2 then drop 2 octet else drop 1 octet)
      else octet)"

text \<open>The text that \<^verbatim>\<open>parseIPAddress\<close> hands to the library parser.\<close>

definition normalizeIP :: "string \<Rightarrow> string" where
  "normalizeIP ip0 =
     (let ip = trimmed ip0;
          octets = qsplit_skip_empty CHR ''.'' ip
      in if length octets = 4 then qjoin ''.'' (map strip_octet octets) else ip)"

definition parseIPAddress :: "addr_parser \<Rightarrow> string \<Rightarrow> address option" where
  "parseIPAddress fs ip = fs (c_str (normalizeIP ip))"

subsection \<open>The filter, the log, the signals and the abort flag\<close>

type_synonym ip_filter = "(address \<times> address) list"

text \<open>
  Modelled from the spec: \<^verbatim>\<open>libt::ip_filter::add_rule\<close> is not part of the sources.
  After the spec's RangeSet, a rule whose two ends differ in family is rejected (the
  exception the callers catch, here \<open>None\<close>) and every other rule is appended; every
  rule inserted here is a blocking one (\<^verbatim>\<open>libt::ip_filter::blocked\<close>).
\<close>

definition add_rule :: "address \<Rightarrow> address \<Rightarrow> ip_filter \<Rightarrow> ip_filter option" where
  "add_rule a b f = (if is_v4 a = is_v4 b then Some (f @ [(a, b)]) else None)"

text \<open>The two critical messages the parsers give to \<^verbatim>\<open>Logger::addMessage\<close>.\<close>

datatype log_msg = IOError | ParsingError

datatype signal = IPFilterParsed int | IPFilterError

text \<open>
  The state of the thread object during one run: the filter, the critical messages
  logged, the signals emitted, and the number of times \<^verbatim>\<open>m_abort\<close> has been read.

  \<^verbatim>\<open>m_abort\<close> is written by other threads. It enters the model as a function
  \<open>ab\<close>: \<open>ab k\<close> is the value that the read number \<open>k\<close> of the flag (counted from
  0 within the run) sees.
\<close>

record thread =
  m_filter :: ip_filter
  logger :: "log_msg list"
  emitted :: "signal list"
  reads :: nat

definition tick :: "thread \<Rightarrow> thread" where
  "tick t = t\<lparr>reads := Suc (reads t)\<rparr>"

definition addMessage :: "log_msg \<Rightarrow> thread \<Rightarrow> thread" where
  "addMessage m t = t\<lparr>logger := logger t @ [m]\<rparr>"

text \<open>
  The file behind \<^verbatim>\<open>m_filePath\<close>: absent (\<^verbatim>\<open>exists()\<close> is false), present but
  not openable for reading, or readable with the given content.
\<close>

datatype qfile = Missing | Unopenable | Readable string

text \<open>
  \<^verbatim>\<open>QFile::readLine()\<close>: the bytes up to and including the next line feed, or all
  that is left; the result is the line and the rest of the device. The translation of
  line ends in text mode is left out: both text parsers trim the line, which removes a
  carriage return at its end.
\<close>

definition readLine :: "string \<Rightarrow> string \<times> string" where
  "readLine dev =
     (let l = takeWhile (\<lambda>c. c \<noteq> CHR 0x0A) dev
      in if length l < length dev then (l @ [CHR 0x0A], drop (Suc (length l)) dev)
         else (l, []))"

subsection \<open>parseDATFilterFile\<close>

text \<open>
  What the loop body did with a line: one constructor for each \<^verbatim>\<open>continue\<close> of the
  two text parsers, one for a caught exception of \<^verbatim>\<open>add_rule\<close>, one for an added rule.
\<close>

datatype line_outcome =
    EmptyLine | CommentLine | NoItem | AccessTooHigh | TooFewParts | BadRange
  | BadStartIP | BadEndIP | MixedV4 | MixedV6 | RuleRejected | RuleAdded

text \<open>The body of the \<^verbatim>\<open>while\<close> loop, on the line just read and the rule count.\<close>

definition parseDATLine ::
  "addr_parser \<Rightarrow> string \<Rightarrow> int \<times> thread \<Rightarrow> line_outcome \<times> int \<times> thread"
where
  "parseDATLine fs raw = (\<lambda>(ruleCount, t).
     let line = trimmed raw in
     if line = [] then (EmptyLine, ruleCount, t)
     else if startsWith line ''#'' \<or> startsWith line ''//'' then (CommentLine, ruleCount, t)
     else
       let partsList = qsplit CHR '','' line in
       if partsList = [] then (NoItem, ruleCount, t)
       else if length partsList > 1 \<and> toInt (trimmed (partsList ! 1)) > 127
         then (AccessTooHigh, ruleCount, t)
       else
         let IPs = qsplit CHR ''-'' (hd partsList) in
         if length IPs \<noteq> 2 then (BadRange, ruleCount, t)
         else
           (case parseIPAddress fs (c_str (IPs ! 0)) of
              None \<Rightarrow> (BadStartIP, ruleCount, t)
            | Some startAddr \<Rightarrow>
                (case parseIPAddress fs (c_str (IPs ! 1)) of
                   None \<Rightarrow> (BadEndIP, ruleCount, t)
                 | Some endAddr \<Rightarrow>
                     if is_v4 startAddr \<noteq> is_v4 endAddr then (MixedV4, ruleCount, t)
                     else if is_v6 startAddr \<noteq> is_v6 endAddr then (MixedV6, ruleCount, t)
                     else
                       (case add_rule startAddr endAddr (m_filter t) of
                          Some f \<Rightarrow> (RuleAdded, ruleCount + 1, t\<lparr>m_filter := f\<rparr>)
                        | None \<Rightarrow> (RuleRejected, ruleCount, t)))))"

lemma readLine_shorter: "dev \<noteq> [] \<Longrightarrow> length (snd (readLine dev)) < length dev"
  by (cases dev) (auto simp: readLine_def Let_def)

function parseDATLoop ::
  "addr_parser \<Rightarrow> (nat \<Rightarrow> bool) \<Rightarrow> string \<Rightarrow> int \<times> thread \<Rightarrow> int \<times> thread"
where
  "parseDATLoop fs ab dev (ruleCount, t) =
     (if dev = [] then (ruleCount, t)
      else if ab (reads t) then (ruleCount, tick t)
      else parseDATLoop fs ab (snd (readLine dev))
             (snd (parseDATLine fs (fst (readLine dev)) (ruleCount, tick t))))"
  by pat_completeness auto
termination
  by (relation "measure (\<lambda>(fs, ab, dev, s). length dev)") (auto simp: readLine_shorter)

declare parseDATLoop.simps [simp del]

definition parseDATFilterFile ::
  "addr_parser \<Rightarrow> (nat \<Rightarrow> bool) \<Rightarrow> qfile \<Rightarrow> thread \<Rightarrow> int \<times> thread"
where
  "parseDATFilterFile fs ab f t =
     (case f of
        Missing \<Rightarrow> (0, t)
      | Unopenable \<Rightarrow> (0, addMessage IOError t)
      | Readable dev \<Rightarrow> parseDATLoop fs ab dev (0, t))"

subsection \<open>parseP2PFilterFile\<close>

definition parseP2PLine ::
  "addr_parser \<Rightarrow> string \<Rightarrow> int \<times> thread \<Rightarrow> line_outcome \<times> int \<times> thread"
where
  "parseP2PLine fs raw = (\<lambda>(ruleCount, t).
     let line = trimmed raw in
     if line = [] then (EmptyLine, ruleCount, t)
     else if startsWith line ''#'' \<or> startsWith line ''//'' then (CommentLine, ruleCount, t)
     else
       let partsList = qsplit CHR '':'' line in
       if length partsList < 2 then (TooFewParts, ruleCount, t)
       else
         let IPs = qsplit CHR ''-'' (last partsList) in
         if length IPs \<noteq> 2 then (BadRange, ruleCount, t)
         else
           (case parseIPAddress fs (c_str (IPs ! 0)) of
              None \<Rightarrow> (BadStartIP, ruleCount, t)
            | Some startAddr \<Rightarrow>
                (case parseIPAddress fs (c_str (IPs ! 1)) of
                   None \<Rightarrow> (BadEndIP, ruleCount, t)
                 | Some endAddr \<Rightarrow>
                     if is_v4 startAddr \<noteq> is_v4 endAddr then (MixedV4, ruleCount, t)
                     else if is_v6 startAddr \<noteq> is_v6 endAddr then (MixedV6, ruleCount, t)
                     else
                       (case add_rule startAddr endAddr (m_filter t) of
                          Some f \<Rightarrow> (RuleAdded, ruleCount + 1, t\<lparr>m_filter := f\<rparr>)
                        | None \<Rightarrow> (RuleRejected, ruleCount, t)))))"

function parseP2PLoop ::
  "addr_parser \<Rightarrow> (nat \<Rightarrow> bool) \<Rightarrow> string \<Rightarrow> int \<times> thread \<Rightarrow> int \<times> thread"
where
  "parseP2PLoop fs ab dev (ruleCount, t) =
     (if dev = [] then (ruleCount, t)
      else if ab (reads t) then (ruleCount, tick t)
      else parseP2PLoop fs ab (snd (readLine dev))
             (snd (parseP2PLine fs (fst (readLine dev)) (ruleCount, tick t))))"
  by pat_completeness auto
termination
  by (relation "measure (\<lambda>(fs, ab, dev, s). length dev)") (auto simp: readLine_shorter)

declare parseP2PLoop.simps [simp del]

definition parseP2PFilterFile ::
  "addr_parser \<Rightarrow> (nat \<Rightarrow> bool) \<Rightarrow> qfile \<Rightarrow> thread \<Rightarrow> int \<times> thread"
where
  "parseP2PFilterFile fs ab f t =
     (case f of
        Missing \<Rightarrow> (0, t)
      | Unopenable \<Rightarrow> (0, addMessage IOError t)
      | Readable dev \<Rightarrow> parseP2PLoop fs ab dev (0, t))"

subsection \<open>Reading the binary stream\<close>

text \<open>
  \<^verbatim>\<open>QDataStream::readRawData(s, len)\<close> on an opened file: up to \<open>len\<close> bytes are
  copied to the front of the destination of \<open>len\<close> bytes, whose other bytes keep
  what they held (\<open>old\<close> is the destination before the call); the result is the
  number of bytes read, the destination and the rest of the device. At the end of the
  file the number is 0.
\<close>

definition readRawData :: "nat \<Rightarrow> string \<Rightarrow> string \<Rightarrow> int \<times> string \<times> string" where
  "readRawData len old dev =
     (int (length (take len dev)),
      take len dev @ drop (length (take len dev)) (take len old),
      drop len dev)"

text \<open>
  \<^verbatim>\<open>ntohl(x)\<close> for a 32-bit variable \<open>x\<close> whose memory holds the given bytes in
  address order: the big-endian reading of the bytes, on a host of either byte order.
\<close>

definition ntohl :: "string \<Rightarrow> 32 word" where
  "ntohl mem = foldl (\<lambda>w b. push_bit 8 w OR of_char b) 0 mem"

text \<open>
  \<^verbatim>\<open>getlineInStream(stream, name, delim)\<close>: the \<^verbatim>\<open>do\<close> loop, with the running
  \<^verbatim>\<open>total_read\<close>; the result is the return value, the name and the rest of the device.
\<close>

fun getline_loop :: "string \<Rightarrow> string \<Rightarrow> char \<Rightarrow> int \<Rightarrow> int \<times> string \<times> string" where
  "getline_loop [] name delim total_read = (total_read, name, [])"
| "getline_loop (c # dev) name delim total_read =
     (if c \<noteq> delim then getline_loop dev (name @ [c]) delim (total_read + 1)
      else (total_read + 1, name, dev))"

definition getlineInStream :: "string \<Rightarrow> string \<Rightarrow> char \<Rightarrow> int \<times> string \<times> string" where
  "getlineInStream dev name delim = getline_loop dev name delim 0"

subsection \<open>parseP2BFilterFile\<close>

text \<open>
  The local variables of \<^verbatim>\<open>parseP2BFilterFile\<close> are not initialised; what their
  memory holds before the first read is given by this record.
\<close>

record stack =
  u_buf :: string
  u_version :: string
  u_name :: string
  u_start :: string
  u_end :: string
  u_namecount :: string
  u_rangecount :: string

definition p2b_magic :: string where
  "p2b_magic = [CHR 0xFF, CHR 0xFF, CHR 0xFF, CHR 0xFF, CHR ''P'', CHR ''2'', CHR ''B'']"

lemma getline_loop_length:
  "getline_loop dev name delim n = (r, name', dev') \<Longrightarrow> length dev' \<le> length dev"
  by (induction dev arbitrary: name n) (auto split: if_splits intro: le_SucI)

lemma getline_loop_shorter:
  "getline_loop dev name delim n = (r, name', dev') \<Longrightarrow> dev \<noteq> [] \<Longrightarrow> length dev' < length dev"
  by (cases dev) (auto split: if_splits dest: getline_loop_length intro: le_imp_less_Suc)

lemma getline_loop_count:
  "getline_loop dev name delim n = (r, name', dev') \<Longrightarrow> 0 \<le> n \<Longrightarrow>
     n \<le> r \<and> (r = n \<longleftrightarrow> dev = [])"
  by (induction dev arbitrary: name n) (fastforce split: if_splits)+

lemma getlineInStream_shorter:
  assumes "getlineInStream dev name delim = (r, name', dev')" and "r \<noteq> 0"
  shows "length dev' < length dev"
proof -
  from assms(1) have g: "getline_loop dev name delim 0 = (r, name', dev')"
    by (simp add: getlineInStream_def)
  from getline_loop_count [OF g] assms(2) have "dev \<noteq> []" by auto
  with getline_loop_shorter [OF g] show ?thesis .
qed

lemma readRawData_length: "readRawData len old dev = (r, mem, dev') \<Longrightarrow> length dev' \<le> length dev"
  by (auto simp: readRawData_def)

lemma p2b_record_shorter:
  assumes "(n, name', dev1) = getlineInStream dev name delim" and "n \<noteq> 0"
    and "(r1, m1, dev2) = readRawData 4 old1 dev1"
    and "(r2, m2, dev3) = readRawData 4 old2 dev2"
  shows "length dev3 < length dev"
proof -
  have "length dev1 < length dev"
    using getlineInStream_shorter [OF assms(1) [symmetric] assms(2)] .
  moreover have "length dev2 \<le> length dev1"
    using readRawData_length [OF assms(3) [symmetric]] .
  moreover have "length dev3 \<le> length dev2"
    using readRawData_length [OF assms(4) [symmetric]] .
  ultimately show ?thesis by simp
qed

text \<open>
  The loop of versions 1 and 2. \<open>name\<close>, \<open>startv\<close> and \<open>endv\<close> are the variables
  \<^verbatim>\<open>name\<close>, \<^verbatim>\<open>start\<close> and \<^verbatim>\<open>end\<close>, declared before the loop.
\<close>

function p2b_v12_loop ::
  "(nat \<Rightarrow> bool) \<Rightarrow> string \<Rightarrow> string \<times> string \<times> string \<Rightarrow> int \<times> thread \<Rightarrow> int \<times> thread"
where
  "p2b_v12_loop ab dev (name, startv, endv) (ruleCount, t) =
     (case getlineInStream dev name (CHR 0x00) of (n, name', dev1) \<Rightarrow>
        if n = 0 then (ruleCount, t)
        else if ab (reads t) then (ruleCount, tick t)
        else
          (case readRawData 4 startv dev1 of (r1, start', dev2) \<Rightarrow>
             if r1 = 0 then (ruleCount, addMessage ParsingError (tick t))
             else
               (case readRawData 4 endv dev2 of (r2, end', dev3) \<Rightarrow>
                  if r2 = 0 then (ruleCount, addMessage ParsingError (tick t))
                  else
                    (case add_rule (V4 (ntohl start')) (V4 (ntohl end')) (m_filter t) of
                       Some f \<Rightarrow>
                         p2b_v12_loop ab dev3 (name', start', end')
                           (ruleCount + 1, (tick t)\<lparr>m_filter := f\<rparr>)
                     | None \<Rightarrow>
                         p2b_v12_loop ab dev3 (name', start', end') (ruleCount, tick t)))))"
  by pat_completeness auto
termination
  by (relation "measure (\<lambda>(ab, dev, vars, s). length dev)")
     (auto intro: p2b_record_shorter)

declare p2b_v12_loop.simps [simp del]

text \<open>
  Version 3, the loop over the names; \<open>k\<close> is the number of iterations left
  (\<^verbatim>\<open>namecount - i\<close>). \<open>Inl\<close> is a \<^verbatim>\<open>return\<close> from inside the loop, \<open>Inr\<close> the
  normal end of the loop with the rest of the device.
\<close>

fun p2b_v3_names ::
  "(nat \<Rightarrow> bool) \<Rightarrow> nat \<Rightarrow> string \<Rightarrow> thread \<Rightarrow> thread + string \<times> thread"
where
  "p2b_v3_names ab 0 dev t = Inr (dev, t)"
| "p2b_v3_names ab (Suc k) dev t =
     (case getlineInStream dev [] (CHR 0x00) of (n, name, dev1) \<Rightarrow>
        if n = 0 then Inl (addMessage ParsingError t)
        else if ab (reads t) then Inl (tick t)
        else p2b_v3_names ab k dev1 (tick t))"

text \<open>
  Version 3, the loop over the ranges; \<open>k\<close> is the number of iterations left
  (\<^verbatim>\<open>rangecount - i\<close>), \<open>name\<close>, \<open>startv\<close> and \<open>endv\<close> are the variables
  \<^verbatim>\<open>name\<close>, \<^verbatim>\<open>start\<close> and \<^verbatim>\<open>end\<close>, declared before the loop.
\<close>

fun p2b_v3_ranges ::
  "(nat \<Rightarrow> bool) \<Rightarrow> nat \<Rightarrow> string \<Rightarrow> string \<times> string \<times> string \<Rightarrow> int \<times> thread \<Rightarrow> int \<times> thread"
where
  "p2b_v3_ranges ab 0 dev vars (ruleCount, t) = (ruleCount, t)"
| "p2b_v3_ranges ab (Suc k) dev (name, startv, endv) (ruleCount, t) =
     (case readRawData 4 name dev of (r0, name', dev1) \<Rightarrow>
        if r0 = 0 then (ruleCount, addMessage ParsingError t)
        else
          (case readRawData 4 startv dev1 of (r1, start', dev2) \<Rightarrow>
             if r1 = 0 then (ruleCount, addMessage ParsingError t)
             else
               (case readRawData 4 endv dev2 of (r2, end', dev3) \<Rightarrow>
                  if r2 = 0 then (ruleCount, addMessage ParsingError t)
                  else
                    (case add_rule (V4 (ntohl start')) (V4 (ntohl end')) (m_filter t) of
                       Some f \<Rightarrow>
                         if ab (reads t) then (ruleCount + 1, tick (t\<lparr>m_filter := f\<rparr>))
                         else p2b_v3_ranges ab k dev3 (name', start', end')
                                (ruleCount + 1, tick (t\<lparr>m_filter := f\<rparr>))
                     | None \<Rightarrow>
                         if ab (reads t) then (ruleCount, tick t)
                         else p2b_v3_ranges ab k dev3 (name', start', end')
                                (ruleCount, tick t)))))"

definition p2b_v3 :: "(nat \<Rightarrow> bool) \<Rightarrow> stack \<Rightarrow> string \<Rightarrow> thread \<Rightarrow> int \<times> thread" where
  "p2b_v3 ab u dev t =
     (case readRawData 4 (u_namecount u) dev of (r0, namecount, dev0) \<Rightarrow>
        if r0 = 0 then (0, addMessage ParsingError t)
        else
          (case p2b_v3_names ab (unat (ntohl namecount)) dev0 t of
             Inl t' \<Rightarrow> (0, t')
           | Inr (dev1, t1) \<Rightarrow>
               (case readRawData 4 (u_rangecount u) dev1 of (r1, rangecount, dev2) \<Rightarrow>
                  if r1 = 0 then (0, addMessage ParsingError t1)
                  else p2b_v3_ranges ab (unat (ntohl rangecount)) dev2
                         (u_name u, u_start u, u_end u) (0, t1))))"

definition parseP2BFilterFile ::
  "(nat \<Rightarrow> bool) \<Rightarrow> stack \<Rightarrow> qfile \<Rightarrow> thread \<Rightarrow> int \<times> thread"
where
  "parseP2BFilterFile ab u f t =
     (case f of
        Missing \<Rightarrow> (0, t)
      | Unopenable \<Rightarrow> (0, addMessage IOError t)
      | Readable dev \<Rightarrow>
          (case readRawData 7 (u_buf u) dev of (r0, buf, dev0) \<Rightarrow>
             if r0 = 0 \<or> take 7 buf \<noteq> p2b_magic then (0, addMessage ParsingError t)
             else
               (case readRawData 1 (u_version u) dev0 of (r1, version, dev1) \<Rightarrow>
                  if r1 = 0 then (0, addMessage ParsingError t)
                  else if hd version = CHR 0x01 \<or> hd version = CHR 0x02
                    then p2b_v12_loop ab dev1 ([], u_start u, u_end u) (0, t)
                  else if hd version = CHR 0x03 then p2b_v3 ab u dev1 t
                  else (0, addMessage ParsingError t))))"

subsection \<open>run and processFilterFile\<close>

text \<open>
  \<^verbatim>\<open>run\<close>: the parser chosen by the extension, the last read of \<^verbatim>\<open>m_abort\<close>, and
  the signals. \<open>slot_throws\<close> says whether delivering \<^verbatim>\<open>IPFilterParsed\<close> raises a
  \<^verbatim>\<open>std::exception\<close>, which \<^verbatim>\<open>run\<close> answers with \<^verbatim>\<open>IPFilterError\<close>.
\<close>

definition parse_by_extension ::
  "addr_parser \<Rightarrow> (nat \<Rightarrow> bool) \<Rightarrow> stack \<Rightarrow> string \<Rightarrow> qfile \<Rightarrow> thread \<Rightarrow> int \<times> thread"
where
  "parse_by_extension fs ab u m_filePath f t =
     (if endsWith_ci m_filePath ''.p2p'' then parseP2PFilterFile fs ab f t
      else if endsWith_ci m_filePath ''.p2b'' then parseP2BFilterFile ab u f t
      else if endsWith_ci m_filePath ''.dat'' then parseDATFilterFile fs ab f t
      else (0, t))"

definition run ::
  "addr_parser \<Rightarrow> (nat \<Rightarrow> bool) \<Rightarrow> stack \<Rightarrow> bool \<Rightarrow> string \<Rightarrow> qfile \<Rightarrow> thread \<Rightarrow> thread"
where
  "run fs ab u slot_throws m_filePath f t =
     (case parse_by_extension fs ab u m_filePath f t of (ruleCount, t') \<Rightarrow>
        if ab (reads t') then tick t'
        else (tick t')\<lparr>emitted := emitted t' @
               (if slot_throws then [IPFilterParsed ruleCount, IPFilterError]
                else [IPFilterParsed ruleCount])\<rparr>)"

text \<open>
  \<^verbatim>\<open>processFilterFile\<close> clears \<^verbatim>\<open>m_abort\<close>, stores the path, replaces the filter
  by an empty one and starts the thread: a run begins in this state.
\<close>

definition fresh :: thread where
  "fresh = \<lparr>m_filter = [], logger = [], emitted = [], reads = 0\<rparr>"

definition processFilterFile ::
  "addr_parser \<Rightarrow> (nat \<Rightarrow> bool) \<Rightarrow> stack \<Rightarrow> bool \<Rightarrow> string \<Rightarrow> qfile \<Rightarrow> thread"
where
  "processFilterFile fs ab u slot_throws filePath f = run fs ab u slot_throws filePath f fresh"

subsection \<open>Notions used to state the results\<close>

text \<open>The comma-separated fields of a DAT line and the colon-separated ones of a P2P line.\<close>

definition dat_fields :: "string \<Rightarrow> string list" where
  "dat_fields raw = qsplit CHR '','' (trimmed raw)"

definition p2p_fields :: "string \<Rightarrow> string list" where
  "p2p_fields raw = qsplit CHR '':'' (trimmed raw)"

definition is_comment :: "string \<Rightarrow> bool" where
  "is_comment raw \<longleftrightarrow> startsWith (trimmed raw) ''#'' \<or> startsWith (trimmed raw) ''//''"

text \<open>The non-empty dot-separated parts of an address text.\<close>

definition ip_octets :: "string \<Rightarrow> string list" where
  "ip_octets ip = qsplit_skip_empty CHR ''.'' (trimmed ip)"

text \<open>
  Stripping the leading zero characters of an octet, as the spec words it: all of them
  go, except that an octet of zeros only keeps one.
\<close>

definition strip_leading_zeros :: "string \<Rightarrow> string" where
  "strip_leading_zeros p =
     (if p \<noteq> [] \<and> dropWhile (\<lambda>c. c = CHR ''0'') p = [] then ''0''
      else dropWhile (\<lambda>c. c = CHR ''0'') p)"

text \<open>
  Removing at most two leading zero characters of an octet, and never its last
  character.
\<close>

definition strip_two_zeros :: "string \<Rightarrow> string" where
  "strip_two_zeros p =
     drop (min 2 (min (length (takeWhile (\<lambda>c. c = CHR ''0'') p)) (length p - 1))) p"

definition known_extension :: "string \<Rightarrow> bool" where
  "known_extension path \<longleftrightarrow>
     endsWith_ci path ''.p2p'' \<or> endsWith_ci path ''.p2b'' \<or> endsWith_ci path ''.dat''"

text \<open>
  What both text parsers do with the text of a range, from the split on the dash to
  \<^verbatim>\<open>add_rule\<close>; it serves to compare the two loop bodies.
\<close>

definition range_step ::
  "addr_parser \<Rightarrow> string \<Rightarrow> int \<times> thread \<Rightarrow> line_outcome \<times> int \<times> thread"
where
  "range_step fs r = (\<lambda>(ruleCount, t).
     let IPs = qsplit CHR ''-'' r in
     if length IPs \<noteq> 2 then (BadRange, ruleCount, t)
     else
       (case parseIPAddress fs (c_str (IPs ! 0)) of
          None \<Rightarrow> (BadStartIP, ruleCount, t)
        | Some startAddr \<Rightarrow>
            (case parseIPAddress fs (c_str (IPs ! 1)) of
               None \<Rightarrow> (BadEndIP, ruleCount, t)
             | Some endAddr \<Rightarrow>
                 if is_v4 startAddr \<noteq> is_v4 endAddr then (MixedV4, ruleCount, t)
                 else if is_v6 startAddr \<noteq> is_v6 endAddr then (MixedV6, ruleCount, t)
                 else
                   (case add_rule startAddr endAddr (m_filter t) of
                      Some f \<Rightarrow> (RuleAdded, ruleCount + 1, t\<lparr>m_filter := f\<rparr>)
                    | None \<Rightarrow> (RuleRejected, ruleCount, t)))))"

text \<open>
  A rule count and thread state \<open>s'\<close> continues \<open>s\<close> when its filter is the filter
  of \<open>s\<close> followed by further rules, its count has grown by their number, and no
  signal has been emitted in between.
\<close>

definition continues :: "int \<times> thread \<Rightarrow> int \<times> thread \<Rightarrow> bool" where
  "continues s s' \<longleftrightarrow>
     (\<exists>rs. m_filter (snd s') = m_filter (snd s) @ rs \<and> fst s' = fst s + int (length rs)) \<and>
     emitted (snd s') = emitted (snd s)"

text \<open>A stack whose memory happens to hold zeros, for the closed examples.\<close>

definition zeroed :: stack where
  "zeroed = \<lparr>u_buf = replicate 7 (CHR 0x00), u_version = [CHR 0x00],
     u_name = replicate 4 (CHR 0x00), u_start = replicate 4 (CHR 0x00),
     u_end = replicate 4 (CHR 0x00), u_namecount = replicate 4 (CHR 0x00),
     u_rangecount = replicate 4 (CHR 0x00)\<rparr>"

section \<open>Results\<close>

subsection \<open>Unfolding the line loops\<close>

lemma qsplit_not_Nil [simp]: "qsplit sep s \<noteq> []"
  by (induction s) (auto split: list.splits)

lemma parseDATLoop_Nil: "parseDATLoop fs ab [] s = s"
  by (cases s) (simp add: parseDATLoop.simps)


lemma parseDATLoop_step:
  "dev \<noteq> [] \<Longrightarrow> \<not> ab (reads t) \<Longrightarrow>
     parseDATLoop fs ab dev (n, t) =
       parseDATLoop fs ab (snd (readLine dev))
         (snd (parseDATLine fs (fst (readLine dev)) (n, tick t)))"
  by (subst parseDATLoop.simps) simp

lemma parseP2PLoop_Nil: "parseP2PLoop fs ab [] s = s"
  by (cases s) (simp add: parseP2PLoop.simps)


lemma parseP2PLoop_step:
  "dev \<noteq> [] \<Longrightarrow> \<not> ab (reads t) \<Longrightarrow>
     parseP2PLoop fs ab dev (n, t) =
       parseP2PLoop fs ab (snd (readLine dev))
         (snd (parseP2PLine fs (fst (readLine dev)) (n, tick t)))"
  by (subst parseP2PLoop.simps) simp

subsection \<open>The access level of a DAT line\<close>

lemma dat_access_skip_iff:
  assumes "trimmed raw \<noteq> []" and "\<not> is_comment raw"
  shows "parseDATLine fs raw (n, t) = (AccessTooHigh, n, t) \<longleftrightarrow>
           2 \<le> length (dat_fields raw) \<and> 127 < toInt (trimmed (dat_fields raw ! 1))"
  using assms
  by (auto simp: parseDATLine_def Let_def dat_fields_def is_comment_def split: option.splits)

lemma toInt_above: "127 < toInt s \<longleftrightarrow> (\<exists>v. toInt_ok s = Some v \<and> 127 < v)"
  by (auto simp: toInt_def split: option.splits)

lemma dat_example_200:
  "parseDATFilterFile from_string (\<lambda>_. False) (Readable ''1.2.3.4-1.2.3.9,200'') fresh
     = (0, fresh\<lparr>reads := 1\<rparr>)"
proof -
  have rl: "readLine ''1.2.3.4-1.2.3.9,200'' = (''1.2.3.4-1.2.3.9,200'', [])"
    by code_simp
  have ln: "parseDATLine from_string ''1.2.3.4-1.2.3.9,200'' (0, tick fresh)
              = (AccessTooHigh, 0, tick fresh)"
    by code_simp
  show ?thesis
    by (simp add: parseDATFilterFile_def parseDATLoop_step parseDATLoop_Nil rl ln)
       (simp add: fresh_def tick_def)
qed

lemma dat_example_50:
  "parseDATFilterFile from_string (\<lambda>_. False) (Readable ''1.2.3.4-1.2.3.9,50'') fresh
     = (1, fresh\<lparr>m_filter := [(V4 0x01020304, V4 0x01020309)], reads := 1\<rparr>)"
proof -
  have rl: "readLine ''1.2.3.4-1.2.3.9,50'' = (''1.2.3.4-1.2.3.9,50'', [])"
    by code_simp
  have ln: "parseDATLine from_string ''1.2.3.4-1.2.3.9,50'' (0, tick fresh)
              = (RuleAdded, 1, (tick fresh)\<lparr>m_filter := [(V4 0x01020304, V4 0x01020309)]\<rparr>)"
    by code_simp
  show ?thesis
    by (simp add: parseDATFilterFile_def parseDATLoop_step parseDATLoop_Nil rl ln)
       (simp add: fresh_def tick_def)
qed

lemma dat_example_plain:
  "parseDATFilterFile from_string (\<lambda>_. False) (Readable ''1.2.3.4-1.2.3.9'') fresh
     = (1, fresh\<lparr>m_filter := [(V4 0x01020304, V4 0x01020309)], reads := 1\<rparr>)"
proof -
  have rl: "readLine ''1.2.3.4-1.2.3.9'' = (''1.2.3.4-1.2.3.9'', [])"
    by code_simp
  have ln: "parseDATLine from_string ''1.2.3.4-1.2.3.9'' (0, tick fresh)
              = (RuleAdded, 1, (tick fresh)\<lparr>m_filter := [(V4 0x01020304, V4 0x01020309)]\<rparr>)"
    by code_simp
  show ?thesis
    by (simp add: parseDATFilterFile_def parseDATLoop_step parseDATLoop_Nil rl ln)
       (simp add: fresh_def tick_def)
qed

lemma parseDATLine_range:
  assumes "trimmed d \<noteq> []" and "\<not> is_comment d"
    and "fst (parseDATLine fs d (n, t)) \<noteq> AccessTooHigh"
  shows "parseDATLine fs d (n, t) = range_step fs (hd (dat_fields d)) (n, t)"
proof -
  from assms have "\<not> (1 < length (dat_fields d) \<and> 127 < toInt (trimmed (dat_fields d ! 1)))"
    by (auto simp: parseDATLine_def Let_def dat_fields_def is_comment_def)
  with assms(1,2) show ?thesis
    by (auto simp add: parseDATLine_def range_step_def Let_def dat_fields_def is_comment_def)
qed

lemma range_step_adds:
  assumes "qsplit CHR ''-'' r = [a, b]"
    and "parseIPAddress fs (c_str a) = Some x" and "parseIPAddress fs (c_str b) = Some y"
    and "is_v4 x = is_v4 y"
  shows "range_step fs r (n, t) = (RuleAdded, n + 1, t\<lparr>m_filter := m_filter t @ [(x, y)]\<rparr>)"
proof -
  from assms(4) have "is_v6 x = is_v6 y"
    by (cases x; cases y) simp_all
  with assms show ?thesis
    by (simp add: range_step_def add_rule_def)
qed

text \<open>
  Claim C1. On a DAT line that is neither empty nor a comment and has at least two
  comma-separated fields, the loop body leaves through the access-level \<^verbatim>\<open>continue\<close>
  (outcome \<open>AccessTooHigh\<close>, rule count and thread state untouched) if and only if the
  second field, trimmed, converts to an integer and that integer is above 127. In every
  other case, so when the second field does not convert (it then counts as 0) or
  converts to at most 127, and also when the line has one field only, the loop body
  does with the line exactly what \<open>range_step\<close> does with its first field: the split
  on the dash, the two addresses, the family check and \<^verbatim>\<open>add_rule\<close>. A first field
  of two addresses of one family adds the rule between them and counts it. With the
  concrete address parser and no cancellation, the file \<^verbatim>\<open>1.2.3.4-1.2.3.9,200\<close> gives
  no rule, and the files \<^verbatim>\<open>1.2.3.4-1.2.3.9,50\<close> and \<^verbatim>\<open>1.2.3.4-1.2.3.9\<close> give
  exactly the rule from 1.2.3.4 to 1.2.3.9, with rule count 1.
\<close>

theorem dat_access_level:
  "(trimmed raw \<noteq> [] \<and> \<not> is_comment raw \<and> 2 \<le> length (dat_fields raw) \<longrightarrow>
      (parseDATLine fs raw (n, t) = (AccessTooHigh, n, t) \<longleftrightarrow>
         (\<exists>v. toInt_ok (trimmed (dat_fields raw ! 1)) = Some v \<and> 127 < v)) \<and>
      (fst (parseDATLine fs raw (n, t)) = AccessTooHigh \<longleftrightarrow>
         (\<exists>v. toInt_ok (trimmed (dat_fields raw ! 1)) = Some v \<and> 127 < v)) \<and>
      (toInt_ok (trimmed (dat_fields raw ! 1)) = None \<longrightarrow>
         toInt (trimmed (dat_fields raw ! 1)) = 0 \<and>
         fst (parseDATLine fs raw (n, t)) \<noteq> AccessTooHigh \<and>
         parseDATLine fs raw (n, t) = range_step fs (hd (dat_fields raw)) (n, t)) \<and>
      ((\<nexists>v. toInt_ok (trimmed (dat_fields raw ! 1)) = Some v \<and> 127 < v) \<longrightarrow>
         parseDATLine fs raw (n, t) = range_step fs (hd (dat_fields raw)) (n, t))) \<and>
   (trimmed raw \<noteq> [] \<and> \<not> is_comment raw \<and> length (dat_fields raw) < 2 \<longrightarrow>
      fst (parseDATLine fs raw (n, t)) \<noteq> AccessTooHigh \<and>
      parseDATLine fs raw (n, t) = range_step fs (hd (dat_fields raw)) (n, t)) \<and>
   (qsplit CHR ''-'' r = [a, b] \<and> parseIPAddress fs (c_str a) = Some x \<and>
    parseIPAddress fs (c_str b) = Some y \<and> is_v4 x = is_v4 y \<longrightarrow>
      range_step fs r (n, t) = (RuleAdded, n + 1, t\<lparr>m_filter := m_filter t @ [(x, y)]\<rparr>)) \<and>
   parseDATFilterFile from_string (\<lambda>_. False) (Readable ''1.2.3.4-1.2.3.9,200'') fresh
     = (0, fresh\<lparr>reads := 1\<rparr>) \<and>
   parseDATFilterFile from_string (\<lambda>_. False) (Readable ''1.2.3.4-1.2.3.9,50'') fresh
     = (1, fresh\<lparr>m_filter := [(V4 0x01020304, V4 0x01020309)], reads := 1\<rparr>) \<and>
   parseDATFilterFile from_string (\<lambda>_. False) (Readable ''1.2.3.4-1.2.3.9'') fresh
     = (1, fresh\<lparr>m_filter := [(V4 0x01020304, V4 0x01020309)], reads := 1\<rparr>)"
proof -
  have tag: "fst (parseDATLine fs raw (n, t)) = AccessTooHigh \<longleftrightarrow>
               parseDATLine fs raw (n, t) = (AccessTooHigh, n, t)"
    by (auto simp: parseDATLine_def Let_def split: option.splits)
  have general: "trimmed raw \<noteq> [] \<and> \<not> is_comment raw \<and> 2 \<le> length (dat_fields raw) \<longrightarrow>
      (parseDATLine fs raw (n, t) = (AccessTooHigh, n, t) \<longleftrightarrow>
         (\<exists>v. toInt_ok (trimmed (dat_fields raw ! 1)) = Some v \<and> 127 < v)) \<and>
      (fst (parseDATLine fs raw (n, t)) = AccessTooHigh \<longleftrightarrow>
         (\<exists>v. toInt_ok (trimmed (dat_fields raw ! 1)) = Some v \<and> 127 < v)) \<and>
      (toInt_ok (trimmed (dat_fields raw ! 1)) = None \<longrightarrow>
         toInt (trimmed (dat_fields raw ! 1)) = 0 \<and>
         fst (parseDATLine fs raw (n, t)) \<noteq> AccessTooHigh \<and>
         parseDATLine fs raw (n, t) = range_step fs (hd (dat_fields raw)) (n, t)) \<and>
      ((\<nexists>v. toInt_ok (trimmed (dat_fields raw ! 1)) = Some v \<and> 127 < v) \<longrightarrow>
         parseDATLine fs raw (n, t) = range_step fs (hd (dat_fields raw)) (n, t))"
  proof
    assume h: "trimmed raw \<noteq> [] \<and> \<not> is_comment raw \<and> 2 \<le> length (dat_fields raw)"
    then have iff: "fst (parseDATLine fs raw (n, t)) = AccessTooHigh \<longleftrightarrow>
         (\<exists>v. toInt_ok (trimmed (dat_fields raw ! 1)) = Some v \<and> 127 < v)"
      by (simp add: tag dat_access_skip_iff toInt_above)
    have rs: "parseDATLine fs raw (n, t) = range_step fs (hd (dat_fields raw)) (n, t)"
      if ns: "fst (parseDATLine fs raw (n, t)) \<noteq> AccessTooHigh"
      by (rule parseDATLine_range [OF conjunct1 [OF h] conjunct1 [OF conjunct2 [OF h]] ns])
    have none: "toInt_ok (trimmed (dat_fields raw ! 1)) = None \<longrightarrow>
         toInt (trimmed (dat_fields raw ! 1)) = 0 \<and>
         fst (parseDATLine fs raw (n, t)) \<noteq> AccessTooHigh \<and>
         parseDATLine fs raw (n, t) = range_step fs (hd (dat_fields raw)) (n, t)"
    proof
      assume e: "toInt_ok (trimmed (dat_fields raw ! 1)) = None"
      then have z: "toInt (trimmed (dat_fields raw ! 1)) = 0"
        by (simp add: toInt_def)
      from e iff have ns: "fst (parseDATLine fs raw (n, t)) \<noteq> AccessTooHigh"
        by simp
      from z ns rs [OF ns]
      show "toInt (trimmed (dat_fields raw ! 1)) = 0 \<and>
         fst (parseDATLine fs raw (n, t)) \<noteq> AccessTooHigh \<and>
         parseDATLine fs raw (n, t) = range_step fs (hd (dat_fields raw)) (n, t)"
        by (intro conjI)
    qed
    have low: "(\<nexists>v. toInt_ok (trimmed (dat_fields raw ! 1)) = Some v \<and> 127 < v) \<longrightarrow>
         parseDATLine fs raw (n, t) = range_step fs (hd (dat_fields raw)) (n, t)"
      using iff rs by blast
    from iff [unfolded tag] iff none low
    show "(parseDATLine fs raw (n, t) = (AccessTooHigh, n, t) \<longleftrightarrow>
         (\<exists>v. toInt_ok (trimmed (dat_fields raw ! 1)) = Some v \<and> 127 < v)) \<and>
      (fst (parseDATLine fs raw (n, t)) = AccessTooHigh \<longleftrightarrow>
         (\<exists>v. toInt_ok (trimmed (dat_fields raw ! 1)) = Some v \<and> 127 < v)) \<and>
      (toInt_ok (trimmed (dat_fields raw ! 1)) = None \<longrightarrow>
         toInt (trimmed (dat_fields raw ! 1)) = 0 \<and>
         fst (parseDATLine fs raw (n, t)) \<noteq> AccessTooHigh \<and>
         parseDATLine fs raw (n, t) = range_step fs (hd (dat_fields raw)) (n, t)) \<and>
      ((\<nexists>v. toInt_ok (trimmed (dat_fields raw ! 1)) = Some v \<and> 127 < v) \<longrightarrow>
         parseDATLine fs raw (n, t) = range_step fs (hd (dat_fields raw)) (n, t))"
      by (intro conjI)
  qed
  have single: "trimmed raw \<noteq> [] \<and> \<not> is_comment raw \<and> length (dat_fields raw) < 2 \<longrightarrow>
      fst (parseDATLine fs raw (n, t)) \<noteq> AccessTooHigh \<and>
      parseDATLine fs raw (n, t) = range_step fs (hd (dat_fields raw)) (n, t)"
  proof
    assume h: "trimmed raw \<noteq> [] \<and> \<not> is_comment raw \<and> length (dat_fields raw) < 2"
    then have ns: "fst (parseDATLine fs raw (n, t)) \<noteq> AccessTooHigh"
      by (simp add: tag dat_access_skip_iff)
    from ns parseDATLine_range [OF conjunct1 [OF h] conjunct1 [OF conjunct2 [OF h]] ns]
    show "fst (parseDATLine fs raw (n, t)) \<noteq> AccessTooHigh \<and>
      parseDATLine fs raw (n, t) = range_step fs (hd (dat_fields raw)) (n, t)"
      by (intro conjI)
  qed
  have adds: "qsplit CHR ''-'' r = [a, b] \<and> parseIPAddress fs (c_str a) = Some x \<and>
    parseIPAddress fs (c_str b) = Some y \<and> is_v4 x = is_v4 y \<longrightarrow>
      range_step fs r (n, t) = (RuleAdded, n + 1, t\<lparr>m_filter := m_filter t @ [(x, y)]\<rparr>)"
    by (simp add: range_step_adds)
  from general single adds dat_example_200 dat_example_50 dat_example_plain
  show ?thesis by (intro conjI)
qed

theorem dat_access_level_witness:
  "trimmed ''1.2.3.4-1.2.3.9 , 200 '' \<noteq> [] \<and> \<not> is_comment ''1.2.3.4-1.2.3.9 , 200 '' \<and>
   2 \<le> length (dat_fields ''1.2.3.4-1.2.3.9 , 200 '') \<and>
   toInt_ok (trimmed (dat_fields ''1.2.3.4-1.2.3.9 , 200 '' ! 1)) = Some 200 \<and>
   parseDATLine from_string ''1.2.3.4-1.2.3.9 , 200 '' (0, fresh) = (AccessTooHigh, 0, fresh) \<and>
   trimmed ''1.2.3.4-1.2.3.9,abc'' \<noteq> [] \<and> \<not> is_comment ''1.2.3.4-1.2.3.9,abc'' \<and>
   2 \<le> length (dat_fields ''1.2.3.4-1.2.3.9,abc'') \<and>
   toInt_ok (trimmed (dat_fields ''1.2.3.4-1.2.3.9,abc'' ! 1)) = None \<and>
   parseDATLine from_string ''1.2.3.4-1.2.3.9,abc'' (0, fresh)
     = (RuleAdded, 1, fresh\<lparr>m_filter := [(V4 0x01020304, V4 0x01020309)]\<rparr>)"
proof -
  have h1: "trimmed ''1.2.3.4-1.2.3.9 , 200 '' \<noteq> []" by code_simp
  have h2: "\<not> is_comment ''1.2.3.4-1.2.3.9 , 200 ''" by code_simp
  have h3: "2 \<le> length (dat_fields ''1.2.3.4-1.2.3.9 , 200 '')" by code_simp
  have v: "toInt_ok (trimmed (dat_fields ''1.2.3.4-1.2.3.9 , 200 '' ! 1)) = Some 200"
    by code_simp
  from dat_access_level [of "''1.2.3.4-1.2.3.9 , 200 ''" from_string 0 fresh,
      THEN conjunct1] h1 h2 h3 v
  have a: "parseDATLine from_string ''1.2.3.4-1.2.3.9 , 200 '' (0, fresh) = (AccessTooHigh, 0, fresh)"
    by simp
  have g1: "trimmed ''1.2.3.4-1.2.3.9,abc'' \<noteq> []" by code_simp
  have g2: "\<not> is_comment ''1.2.3.4-1.2.3.9,abc''" by code_simp
  have g3: "2 \<le> length (dat_fields ''1.2.3.4-1.2.3.9,abc'')" by code_simp
  have w: "toInt_ok (trimmed (dat_fields ''1.2.3.4-1.2.3.9,abc'' ! 1)) = None"
    by code_simp
  have rs: "range_step from_string (hd (dat_fields ''1.2.3.4-1.2.3.9,abc'')) (0, fresh)
      = (RuleAdded, 1, fresh\<lparr>m_filter := [(V4 0x01020304, V4 0x01020309)]\<rparr>)"
    by code_simp
  have g: "trimmed ''1.2.3.4-1.2.3.9,abc'' \<noteq> [] \<and> \<not> is_comment ''1.2.3.4-1.2.3.9,abc'' \<and>
      2 \<le> length (dat_fields ''1.2.3.4-1.2.3.9,abc'')"
    using g1 g2 g3 by (intro conjI)
  have b: "parseDATLine from_string ''1.2.3.4-1.2.3.9,abc'' (0, fresh)
     = (RuleAdded, 1, fresh\<lparr>m_filter := [(V4 0x01020304, V4 0x01020309)]\<rparr>)"
    using dat_access_level [of "''1.2.3.4-1.2.3.9,abc''" from_string 0 fresh,
        THEN conjunct1, THEN mp, OF g, THEN conjunct2, THEN conjunct2, THEN conjunct1,
        THEN mp, OF w, THEN conjunct2, THEN conjunct2]
    by (simp only: rs)
  from h1 h2 h3 v a g1 g2 g3 w b show ?thesis by (intro conjI)
qed

subsection \<open>The text that parseIPAddress hands to the address parser\<close>

lemma short_list_cases:
  assumes "p \<noteq> []" and "length p \<le> 3"
  obtains a where "p = [a]" | a b where "p = [a, b]" | a b c where "p = [a, b, c]"
proof -
  from assms obtain a q where p: "p = a # q" by (cases p) auto
  show ?thesis
  proof (cases q)
    case Nil with p that(1) show ?thesis by simp
  next
    case (Cons b r)
    note q = this
    show ?thesis
    proof (cases r)
      case Nil with p q that(2) show ?thesis by simp
    next
      case (Cons c r')
      with p q assms(2) have "r' = []" by simp
      with Cons p q that(3) show ?thesis by simp
    qed
  qed
qed

lemma strip_octet_short:
  assumes "p \<noteq> []" and "length p \<le> 3"
  shows "strip_octet p = strip_leading_zeros p"
  using assms
  by (rule short_list_cases) (auto simp: strip_octet_def strip_leading_zeros_def)

lemma ip_octets_nonempty: "p \<in> set (ip_octets ip) \<Longrightarrow> p \<noteq> []"
  by (simp add: ip_octets_def qsplit_skip_empty_def)

lemma qsplit_no_sep: "p \<in> set (qsplit sep s) \<Longrightarrow> sep \<notin> set p"
proof (induction s arbitrary: p)
  case Nil
  then show ?case by simp
next
  case (Cons c cs)
  then show ?case
    by (cases "qsplit sep cs") (auto split: if_splits)
qed

lemma ip_octets_no_dot: "p \<in> set (ip_octets ip) \<Longrightarrow> CHR ''.'' \<notin> set p"
  by (auto simp: ip_octets_def qsplit_skip_empty_def dest: qsplit_no_sep)

lemma qsplit_single: "sep \<notin> set p \<Longrightarrow> qsplit sep p = [p]"
  by (induction p) auto

lemma qsplit_append_sep: "sep \<notin> set p \<Longrightarrow> qsplit sep (p @ sep # rest) = p # qsplit sep rest"
  by (induction p) auto

lemma qsplit_qjoin:
  "ps \<noteq> [] \<Longrightarrow> \<forall>p \<in> set ps. sep \<notin> set p \<Longrightarrow> qsplit sep (qjoin [sep] ps) = ps"
  by (induction "[sep]" ps rule: qjoin.induct) (auto simp: qsplit_single qsplit_append_sep)

lemma strip_octet_subset: "set (strip_octet p) \<subseteq> set p"
  by (auto simp: strip_octet_def dest: in_set_dropD)

lemma strip_octet_nonempty: "p \<noteq> [] \<Longrightarrow> strip_octet p \<noteq> []"
  by (auto simp: strip_octet_def)

lemma normalizeIP_four:
  "length (ip_octets ip) = 4 \<Longrightarrow> normalizeIP ip = qjoin ''.'' (map strip_octet (ip_octets ip))"
  by (simp add: normalizeIP_def ip_octets_def Let_def)

lemma normalizeIP_other:
  "length (ip_octets ip) \<noteq> 4 \<Longrightarrow> normalizeIP ip = trimmed ip"
  by (simp add: normalizeIP_def ip_octets_def Let_def)

lemma qsplit_normalizeIP:
  assumes "length (ip_octets ip) = 4"
  shows "qsplit CHR ''.'' (normalizeIP ip) = map strip_octet (ip_octets ip)"
proof -
  have ne: "map strip_octet (ip_octets ip) \<noteq> []" using assms by auto
  have nd: "\<forall>p \<in> set (map strip_octet (ip_octets ip)). CHR ''.'' \<notin> set p"
    using strip_octet_subset ip_octets_no_dot by fastforce
  from qsplit_qjoin [OF ne nd] assms show ?thesis
    by (simp add: normalizeIP_four)
qed

lemma ip_octets_qjoin:
  assumes "ip_octets ip \<noteq> []"
    and "trimmed (qjoin ''.'' (ip_octets ip)) = qjoin ''.'' (ip_octets ip)"
  shows "ip_octets (qjoin ''.'' (ip_octets ip)) = ip_octets ip"
proof -
  have nd: "\<forall>p \<in> set (ip_octets ip). CHR ''.'' \<notin> set p"
    using ip_octets_no_dot by blast
  have "ip_octets (qjoin ''.'' (ip_octets ip)) = filter (\<lambda>p. p \<noteq> []) (ip_octets ip)"
    using qsplit_qjoin [OF assms(1) nd] assms(2)
    by (simp add: ip_octets_def [of "qjoin ''.'' (ip_octets ip)"] qsplit_skip_empty_def)
  also have "\<dots> = ip_octets ip"
    by (rule filter_True) (simp add: ip_octets_nonempty)
  finally show ?thesis .
qed

lemma normalizeIP_short:
  assumes "length (ip_octets ip) = 4" and "\<forall>p \<in> set (ip_octets ip). length p \<le> 3"
  shows "normalizeIP ip = qjoin ''.'' (map strip_leading_zeros (ip_octets ip))"
proof -
  have "\<forall>p \<in> set (ip_octets ip). strip_octet p = strip_leading_zeros p"
    using assms(2) strip_octet_short ip_octets_nonempty by blast
  then have eq: "map strip_octet (ip_octets ip) = map strip_leading_zeros (ip_octets ip)"
    by simp
  show ?thesis by (simp only: normalizeIP_four [OF assms(1)] eq)
qed

lemma normalizeIP_padded: "normalizeIP ''001.009.106.186'' = ''1.9.106.186''"
  by code_simp

lemma normalizeIP_plain: "normalizeIP ''1.9.106.186'' = ''1.9.106.186''"
  by code_simp

lemma strip_octet_two: "strip_octet p = strip_two_zeros p"
proof (cases p)
  case Nil
  then show ?thesis by (simp add: strip_octet_def strip_two_zeros_def)
next
  case (Cons a q)
  note p = this
  show ?thesis
  proof (cases q)
    case Nil
    with p show ?thesis by (simp add: strip_octet_def strip_two_zeros_def)
  next
    case (Cons b r)
    note q = this
    show ?thesis
    proof (cases r)
      case Nil
      with p q show ?thesis by (simp add: strip_octet_def strip_two_zeros_def)
    next
      case (Cons c r')
      with p q show ?thesis
        by (simp add: strip_octet_def strip_two_zeros_def min_def numeral_2_eq_2)
    qed
  qed
qed

lemma normalizeIP_two:
  assumes "length (ip_octets ip) = 4"
  shows "normalizeIP ip = qjoin ''.'' (map strip_two_zeros (ip_octets ip))"
proof -
  have "map strip_octet (ip_octets ip) = map strip_two_zeros (ip_octets ip)"
    by (simp add: strip_octet_two)
  then show ?thesis by (simp only: normalizeIP_four [OF assms])
qed

text \<open>
  Claim C4, as the spec states it, fails on an octet with three leading zeros: the text
  \<^verbatim>\<open>0001.2.3.4\<close> has four dot-separated decimal octets, and the text handed to the
  address parser is \<^verbatim>\<open>01.2.3.4\<close>, not the text \<^verbatim>\<open>1.2.3.4\<close> that stripping the
  leading zeros gives; the concrete parser rejects the first and accepts the second.
\<close>

theorem padded_octet_keeps_zero:
  "ip_octets ''0001.2.3.4'' = [''0001'', ''2'', ''3'', ''4''] \<and>
   normalizeIP ''0001.2.3.4'' = ''01.2.3.4'' \<and>
   qjoin ''.'' (map strip_leading_zeros (ip_octets ''0001.2.3.4'')) = ''1.2.3.4'' \<and>
   normalizeIP ''0001.2.3.4'' \<noteq> qjoin ''.'' (map strip_leading_zeros (ip_octets ''0001.2.3.4'')) \<and>
   parseIPAddress from_string ''0001.2.3.4'' = None \<and>
   from_string ''1.2.3.4'' = Some (V4 0x01020304)"
proof -
  have o: "ip_octets ''0001.2.3.4'' = [''0001'', ''2'', ''3'', ''4'']"
    by code_simp
  have a: "normalizeIP ''0001.2.3.4'' = ''01.2.3.4''"
    by code_simp
  have b: "qjoin ''.'' (map strip_leading_zeros (ip_octets ''0001.2.3.4'')) = ''1.2.3.4''"
    by code_simp
  have c: "normalizeIP ''0001.2.3.4'' \<noteq> qjoin ''.'' (map strip_leading_zeros (ip_octets ''0001.2.3.4''))"
    by (simp add: a b)
  have d: "parseIPAddress from_string ''0001.2.3.4'' = None"
    by code_simp
  have e: "from_string ''1.2.3.4'' = Some (V4 0x01020304)"
    by code_simp
  from o a b c d e show ?thesis by (intro conjI)
qed

text \<open>
  Claim C4, amended. When the trimmed text has exactly four non-empty dot-separated
  parts, the text handed to the address parser is these parts joined by dots, each
  without at most two leading zero characters and never without its last character.
  So a part of at most three characters (a decimal octet, zero-padded to three digits
  or not) loses all its leading zeros: \<^verbatim>\<open>001.009.106.186\<close> is handed on as
  \<^verbatim>\<open>1.9.106.186\<close> and gives the same address as \<^verbatim>\<open>1.9.106.186\<close>, for every
  address parser. A text that does not have four such parts is handed on as it is
  (trimmed). With the concrete parser, \<^verbatim>\<open>256.1.1.1\<close> fails and \<^verbatim>\<open>::1\<close> succeeds
  with an address that is not IPv4.
\<close>

theorem parseIPAddress_leading_zeros:
  "(length (ip_octets ip) = 4 \<longrightarrow>
      normalizeIP ip = qjoin ''.'' (map strip_two_zeros (ip_octets ip)) \<and>
      parseIPAddress fs ip = fs (c_str (qjoin ''.'' (map strip_two_zeros (ip_octets ip))))) \<and>
   (length (ip_octets ip) = 4 \<and> (\<forall>p \<in> set (ip_octets ip). length p \<le> 3) \<longrightarrow>
      normalizeIP ip = qjoin ''.'' (map strip_leading_zeros (ip_octets ip)) \<and>
      parseIPAddress fs ip = fs (c_str (qjoin ''.'' (map strip_leading_zeros (ip_octets ip))))) \<and>
   normalizeIP ''001.009.106.186'' = ''1.9.106.186'' \<and>
   parseIPAddress fs ''001.009.106.186'' = parseIPAddress fs ''1.9.106.186'' \<and>
   parseIPAddress from_string ''001.009.106.186'' = Some (V4 0x01096ABA) \<and>
   (length (ip_octets ip) \<noteq> 4 \<longrightarrow>
      normalizeIP ip = trimmed ip \<and> parseIPAddress fs ip = fs (c_str (trimmed ip))) \<and>
   parseIPAddress from_string ''256.1.1.1'' = None \<and>
   (\<exists>a. parseIPAddress from_string ''::1'' = Some a \<and> \<not> is_v4 a)"
proof -
  have two: "length (ip_octets ip) = 4 \<longrightarrow>
      normalizeIP ip = qjoin ''.'' (map strip_two_zeros (ip_octets ip)) \<and>
      parseIPAddress fs ip = fs (c_str (qjoin ''.'' (map strip_two_zeros (ip_octets ip))))"
    by (simp add: parseIPAddress_def normalizeIP_two)
  have four: "length (ip_octets ip) = 4 \<and> (\<forall>p \<in> set (ip_octets ip). length p \<le> 3) \<longrightarrow>
      normalizeIP ip = qjoin ''.'' (map strip_leading_zeros (ip_octets ip)) \<and>
      parseIPAddress fs ip = fs (c_str (qjoin ''.'' (map strip_leading_zeros (ip_octets ip))))"
    by (simp add: parseIPAddress_def normalizeIP_short)
  have same: "parseIPAddress fs ''001.009.106.186'' = parseIPAddress fs ''1.9.106.186''"
    by (simp only: parseIPAddress_def normalizeIP_padded normalizeIP_plain)
  have v4: "parseIPAddress from_string ''001.009.106.186'' = Some (V4 0x01096ABA)"
    by code_simp
  have other: "length (ip_octets ip) \<noteq> 4 \<longrightarrow>
      normalizeIP ip = trimmed ip \<and> parseIPAddress fs ip = fs (c_str (trimmed ip))"
    by (simp add: parseIPAddress_def normalizeIP_other)
  have bad: "parseIPAddress from_string ''256.1.1.1'' = None"
    by code_simp
  have "parseIPAddress from_string ''::1'' = Some (V6 1)"
    by code_simp
  then have v6: "\<exists>a. parseIPAddress from_string ''::1'' = Some a \<and> \<not> is_v4 a"
    by simp
  from two four normalizeIP_padded same v4 other bad v6 show ?thesis
    by (intro conjI)
qed

theorem parseIPAddress_leading_zeros_witness:
  "ip_octets ''001.009.106.186'' = [''001'', ''009'', ''106'', ''186''] \<and>
   parseIPAddress from_string ''001.009.106.186'' = from_string ''1.9.106.186'' \<and>
   ip_octets ''0001.2.3.4'' = [''0001'', ''2'', ''3'', ''4''] \<and>
   parseIPAddress from_string ''0001.2.3.4'' = from_string ''01.2.3.4'' \<and>
   length (ip_octets ''::1'') \<noteq> 4 \<and>
   parseIPAddress from_string ''::1'' = from_string ''::1''"
proof -
  have o: "ip_octets ''001.009.106.186'' = [''001'', ''009'', ''106'', ''186'']"
    by code_simp
  have h1: "length (ip_octets ''001.009.106.186'') = 4 \<and>
    (\<forall>p \<in> set (ip_octets ''001.009.106.186''). length p \<le> 3)"
    by (simp add: o)
  have j: "c_str (qjoin ''.'' (map strip_leading_zeros (ip_octets ''001.009.106.186'')))
             = ''1.9.106.186''"
    by code_simp
  have o': "ip_octets ''0001.2.3.4'' = [''0001'', ''2'', ''3'', ''4'']"
    by code_simp
  have h2: "length (ip_octets ''0001.2.3.4'') = 4"
    by (simp add: o')
  have j': "c_str (qjoin ''.'' (map strip_two_zeros (ip_octets ''0001.2.3.4''))) = ''01.2.3.4''"
    by code_simp
  have h3: "length (ip_octets ''::1'') \<noteq> 4"
    by code_simp
  have k: "c_str (trimmed ''::1'') = ''::1''"
    by code_simp
  have a: "parseIPAddress from_string ''001.009.106.186'' = from_string ''1.9.106.186''"
    using parseIPAddress_leading_zeros [of "''001.009.106.186''" from_string,
        THEN conjunct2, THEN conjunct1, THEN mp, OF h1, THEN conjunct2]
    by (simp only: j)
  have a': "parseIPAddress from_string ''0001.2.3.4'' = from_string ''01.2.3.4''"
    using parseIPAddress_leading_zeros [of "''0001.2.3.4''" from_string,
        THEN conjunct1, THEN mp, OF h2, THEN conjunct2]
    by (simp only: j')
  have b: "parseIPAddress from_string ''::1'' = from_string ''::1''"
    using parseIPAddress_leading_zeros [of "''::1''" from_string,
        THEN conjunct2, THEN conjunct2, THEN conjunct2, THEN conjunct2, THEN conjunct2,
        THEN conjunct1, THEN mp, OF h3, THEN conjunct2]
    by (simp only: k)
  from o a o' a' h3 b show ?thesis by (intro conjI)
qed

text \<open>
  Claim C10. The split on the dot drops empty segments: when four non-empty parts
  remain, the text handed to the address parser is these parts (each without its
  padding zeros) joined by single dots, so it splits again into exactly these four
  parts and has no empty segment. When the joined parts carry no surrounding
  whitespace, the text gives the same address as its parts joined by single dots.
  So \<^verbatim>\<open>1..2.3.4\<close> and \<^verbatim>\<open>.1.2.3.4.\<close> give the same address as \<^verbatim>\<open>1.2.3.4\<close>
  for every address parser; with the concrete parser \<^verbatim>\<open>1..2.3.4\<close> is accepted as
  1.2.3.4 although the parser itself rejects that text.
\<close>

theorem parseIPAddress_empty_segments:
  "(length (ip_octets ip) = 4 \<longrightarrow>
      qsplit CHR ''.'' (normalizeIP ip) = map strip_octet (ip_octets ip) \<and>
      [] \<notin> set (qsplit CHR ''.'' (normalizeIP ip)) \<and>
      parseIPAddress fs ip = fs (c_str (qjoin ''.'' (map strip_octet (ip_octets ip))))) \<and>
   (length (ip_octets ip) = 4 \<and>
    trimmed (qjoin ''.'' (ip_octets ip)) = qjoin ''.'' (ip_octets ip) \<longrightarrow>
      parseIPAddress fs ip = parseIPAddress fs (qjoin ''.'' (ip_octets ip))) \<and>
   ip_octets ''1..2.3.4'' = [''1'', ''2'', ''3'', ''4''] \<and>
   parseIPAddress fs ''1..2.3.4'' = parseIPAddress fs ''1.2.3.4'' \<and>
   parseIPAddress fs ''.1.2.3.4.'' = parseIPAddress fs ''1.2.3.4'' \<and>
   parseIPAddress from_string ''1..2.3.4'' = Some (V4 0x01020304) \<and>
   from_string ''1..2.3.4'' = None"
proof -
  have rejoin: "length (ip_octets ip) = 4 \<longrightarrow>
      qsplit CHR ''.'' (normalizeIP ip) = map strip_octet (ip_octets ip) \<and>
      [] \<notin> set (qsplit CHR ''.'' (normalizeIP ip)) \<and>
      parseIPAddress fs ip = fs (c_str (qjoin ''.'' (map strip_octet (ip_octets ip))))"
  proof
    assume l: "length (ip_octets ip) = 4"
    have "\<forall>p \<in> set (ip_octets ip). strip_octet p \<noteq> []"
      using strip_octet_nonempty ip_octets_nonempty by blast
    then have ne: "[] \<notin> set (map strip_octet (ip_octets ip))"
      by (simp add: image_iff) metis
    have q: "qsplit CHR ''.'' (normalizeIP ip) = map strip_octet (ip_octets ip)"
      by (rule qsplit_normalizeIP [OF l])
    have p: "parseIPAddress fs ip = fs (c_str (qjoin ''.'' (map strip_octet (ip_octets ip))))"
      by (simp only: parseIPAddress_def normalizeIP_four [OF l])
    from ne have ne': "[] \<notin> set (qsplit CHR ''.'' (normalizeIP ip))"
      unfolding q .
    from q ne' p
    show "qsplit CHR ''.'' (normalizeIP ip) = map strip_octet (ip_octets ip) \<and>
      [] \<notin> set (qsplit CHR ''.'' (normalizeIP ip)) \<and>
      parseIPAddress fs ip = fs (c_str (qjoin ''.'' (map strip_octet (ip_octets ip))))"
      by (intro conjI)
  qed
  have single: "length (ip_octets ip) = 4 \<and>
    trimmed (qjoin ''.'' (ip_octets ip)) = qjoin ''.'' (ip_octets ip) \<longrightarrow>
      parseIPAddress fs ip = parseIPAddress fs (qjoin ''.'' (ip_octets ip))"
  proof
    assume a: "length (ip_octets ip) = 4 \<and>
      trimmed (qjoin ''.'' (ip_octets ip)) = qjoin ''.'' (ip_octets ip)"
    then have ne: "ip_octets ip \<noteq> []" by auto
    from a have e: "ip_octets (qjoin ''.'' (ip_octets ip)) = ip_octets ip"
      using ip_octets_qjoin [OF ne] by simp
    with a have "normalizeIP (qjoin ''.'' (ip_octets ip)) = normalizeIP ip"
      by (simp add: normalizeIP_four)
    then show "parseIPAddress fs ip = parseIPAddress fs (qjoin ''.'' (ip_octets ip))"
      by (simp add: parseIPAddress_def)
  qed
  have o: "ip_octets ''1..2.3.4'' = [''1'', ''2'', ''3'', ''4'']"
    by code_simp
  have n0: "normalizeIP ''1.2.3.4'' = ''1.2.3.4''" by code_simp
  have n1: "normalizeIP ''1..2.3.4'' = ''1.2.3.4''" by code_simp
  have n2: "normalizeIP ''.1.2.3.4.'' = ''1.2.3.4''" by code_simp
  have e1: "parseIPAddress fs ''1..2.3.4'' = parseIPAddress fs ''1.2.3.4''"
    by (simp only: parseIPAddress_def n0 n1)
  have e2: "parseIPAddress fs ''.1.2.3.4.'' = parseIPAddress fs ''1.2.3.4''"
    by (simp only: parseIPAddress_def n0 n2)
  have acc: "parseIPAddress from_string ''1..2.3.4'' = Some (V4 0x01020304)"
    by code_simp
  have rej: "from_string ''1..2.3.4'' = None"
    by code_simp
  from rejoin single o e1 e2 acc rej show ?thesis
    by (intro conjI)
qed

theorem parseIPAddress_empty_segments_witness:
  "length (ip_octets '' 1..02.3.4. '') = 4 \<and>
   trimmed (qjoin ''.'' (ip_octets '' 1..02.3.4. '')) = qjoin ''.'' (ip_octets '' 1..02.3.4. '') \<and>
   qsplit CHR ''.'' (normalizeIP '' 1..02.3.4. '') = [''1'', ''2'', ''3'', ''4''] \<and>
   parseIPAddress from_string '' 1..02.3.4. '' = parseIPAddress from_string ''1.02.3.4''"
proof -
  have o: "ip_octets '' 1..02.3.4. '' = [''1'', ''02'', ''3'', ''4'']"
    by code_simp
  have h1: "length (ip_octets '' 1..02.3.4. '') = 4"
    by (simp add: o)
  have h2: "trimmed (qjoin ''.'' (ip_octets '' 1..02.3.4. '')) = qjoin ''.'' (ip_octets '' 1..02.3.4. '')"
    by code_simp
  have m: "map strip_octet (ip_octets '' 1..02.3.4. '') = [''1'', ''2'', ''3'', ''4'']"
    by code_simp
  have j: "qjoin ''.'' (ip_octets '' 1..02.3.4. '') = ''1.02.3.4''"
    by code_simp
  have a: "qsplit CHR ''.'' (normalizeIP '' 1..02.3.4. '') = [''1'', ''2'', ''3'', ''4'']"
    using parseIPAddress_empty_segments [of "'' 1..02.3.4. ''" from_string, THEN conjunct1] h1
    by (simp only: m)
  have b: "parseIPAddress from_string '' 1..02.3.4. '' = parseIPAddress from_string ''1.02.3.4''"
    using parseIPAddress_empty_segments
            [of "'' 1..02.3.4. ''" from_string, THEN conjunct2, THEN conjunct1] h1 h2
    by (simp only: j)
  from h1 h2 a b show ?thesis by (intro conjI)
qed

subsection \<open>The P2P loop body against the DAT loop body\<close>

lemma parseP2PLine_range:
  assumes "trimmed l \<noteq> []" and "\<not> is_comment l" and "2 \<le> length (p2p_fields l)"
  shows "parseP2PLine fs l (n, t) = range_step fs (last (p2p_fields l)) (n, t)"
  using assms
  by (simp add: parseP2PLine_def range_step_def Let_def p2p_fields_def is_comment_def)

lemma parseP2PLine_few:
  assumes "trimmed l \<noteq> []" and "\<not> is_comment l" and "length (p2p_fields l) < 2"
  shows "parseP2PLine fs l (n, t) = (TooFewParts, n, t)"
  using assms
  by (simp add: parseP2PLine_def Let_def p2p_fields_def is_comment_def)

lemma p2p_example:
  "parseP2PFilterFile from_string (\<lambda>_. False) (Readable ''sometag:1.2.3.4-1.2.3.9'') fresh
     = (1, fresh\<lparr>m_filter := [(V4 0x01020304, V4 0x01020309)], reads := 1\<rparr>)"
proof -
  have rl: "readLine ''sometag:1.2.3.4-1.2.3.9'' = (''sometag:1.2.3.4-1.2.3.9'', [])"
    by code_simp
  have ln: "parseP2PLine from_string ''sometag:1.2.3.4-1.2.3.9'' (0, tick fresh)
              = (RuleAdded, 1, (tick fresh)\<lparr>m_filter := [(V4 0x01020304, V4 0x01020309)]\<rparr>)"
    by code_simp
  show ?thesis
    by (simp add: parseP2PFilterFile_def parseP2PLoop_step parseP2PLoop_Nil rl ln)
       (simp add: fresh_def tick_def)
qed

text \<open>
  Claim C8. On every P2P line that is neither empty nor a comment and has at least two
  colon-separated fields, the loop body does with the last field exactly what
  \<open>range_step\<close> does: the split on the dash into exactly two parts, the two
  addresses, the family check and \<^verbatim>\<open>add_rule\<close>. The DAT loop body does the same
  with the first field of every line that passes its access check. So whenever the two
  fields carry the same text, the two loop bodies give the same outcome, rule count and
  filter. A last field of two addresses of one family adds the rule between them and
  counts it; a last field that does not split into exactly two parts is skipped, and so
  is a line with fewer than two fields. With the concrete address parser, the file
  \<^verbatim>\<open>sometag:1.2.3.4-1.2.3.9\<close> gives the one rule from 1.2.3.4 to 1.2.3.9, the very
  result of the DAT parser on \<^verbatim>\<open>1.2.3.4-1.2.3.9\<close>.
\<close>

theorem p2p_as_dat:
  "(trimmed l \<noteq> [] \<and> \<not> is_comment l \<and> 2 \<le> length (p2p_fields l) \<longrightarrow>
      parseP2PLine fs l (n, t) = range_step fs (last (p2p_fields l)) (n, t)) \<and>
   (trimmed d \<noteq> [] \<and> \<not> is_comment d \<and> fst (parseDATLine fs d (n, t)) \<noteq> AccessTooHigh \<longrightarrow>
      parseDATLine fs d (n, t) = range_step fs (hd (dat_fields d)) (n, t)) \<and>
   (trimmed l \<noteq> [] \<and> \<not> is_comment l \<and> 2 \<le> length (p2p_fields l) \<and>
    trimmed d \<noteq> [] \<and> \<not> is_comment d \<and> fst (parseDATLine fs d (n, t)) \<noteq> AccessTooHigh \<and>
    hd (dat_fields d) = last (p2p_fields l) \<longrightarrow>
      parseP2PLine fs l (n, t) = parseDATLine fs d (n, t)) \<and>
   (qsplit CHR ''-'' r = [a, b] \<and> parseIPAddress fs (c_str a) = Some x \<and>
    parseIPAddress fs (c_str b) = Some y \<and> is_v4 x = is_v4 y \<longrightarrow>
      range_step fs r (n, t) = (RuleAdded, n + 1, t\<lparr>m_filter := m_filter t @ [(x, y)]\<rparr>)) \<and>
   (trimmed l \<noteq> [] \<and> \<not> is_comment l \<and> 2 \<le> length (p2p_fields l) \<and>
    length (qsplit CHR ''-'' (last (p2p_fields l))) \<noteq> 2 \<longrightarrow>
      parseP2PLine fs l (n, t) = (BadRange, n, t)) \<and>
   (trimmed l \<noteq> [] \<and> \<not> is_comment l \<and> length (p2p_fields l) < 2 \<longrightarrow>
      parseP2PLine fs l (n, t) = (TooFewParts, n, t)) \<and>
   parseP2PFilterFile from_string (\<lambda>_. False) (Readable ''sometag:1.2.3.4-1.2.3.9'') fresh
     = (1, fresh\<lparr>m_filter := [(V4 0x01020304, V4 0x01020309)], reads := 1\<rparr>) \<and>
   parseP2PFilterFile from_string (\<lambda>_. False) (Readable ''sometag:1.2.3.4-1.2.3.9'') fresh
     = parseDATFilterFile from_string (\<lambda>_. False) (Readable ''1.2.3.4-1.2.3.9'') fresh"
proof -
  have p2p: "trimmed l \<noteq> [] \<and> \<not> is_comment l \<and> 2 \<le> length (p2p_fields l) \<longrightarrow>
      parseP2PLine fs l (n, t) = range_step fs (last (p2p_fields l)) (n, t)"
    by (simp add: parseP2PLine_range)
  have dat: "trimmed d \<noteq> [] \<and> \<not> is_comment d \<and>
      fst (parseDATLine fs d (n, t)) \<noteq> AccessTooHigh \<longrightarrow>
      parseDATLine fs d (n, t) = range_step fs (hd (dat_fields d)) (n, t)"
  proof
    assume h: "trimmed d \<noteq> [] \<and> \<not> is_comment d \<and>
      fst (parseDATLine fs d (n, t)) \<noteq> AccessTooHigh"
    show "parseDATLine fs d (n, t) = range_step fs (hd (dat_fields d)) (n, t)"
      by (rule parseDATLine_range [OF conjunct1 [OF h] conjunct1 [OF conjunct2 [OF h]]
            conjunct2 [OF conjunct2 [OF h]]])
  qed
  have same: "trimmed l \<noteq> [] \<and> \<not> is_comment l \<and> 2 \<le> length (p2p_fields l) \<and>
    trimmed d \<noteq> [] \<and> \<not> is_comment d \<and> fst (parseDATLine fs d (n, t)) \<noteq> AccessTooHigh \<and>
    hd (dat_fields d) = last (p2p_fields l) \<longrightarrow>
      parseP2PLine fs l (n, t) = parseDATLine fs d (n, t)"
    by (simp add: parseDATLine_range parseP2PLine_range)
  have adds: "qsplit CHR ''-'' r = [a, b] \<and> parseIPAddress fs (c_str a) = Some x \<and>
    parseIPAddress fs (c_str b) = Some y \<and> is_v4 x = is_v4 y \<longrightarrow>
      range_step fs r (n, t) = (RuleAdded, n + 1, t\<lparr>m_filter := m_filter t @ [(x, y)]\<rparr>)"
    by (simp add: range_step_adds)
  have bad: "trimmed l \<noteq> [] \<and> \<not> is_comment l \<and> 2 \<le> length (p2p_fields l) \<and>
    length (qsplit CHR ''-'' (last (p2p_fields l))) \<noteq> 2 \<longrightarrow>
      parseP2PLine fs l (n, t) = (BadRange, n, t)"
    by (simp add: parseP2PLine_range) (simp add: range_step_def)
  have few: "trimmed l \<noteq> [] \<and> \<not> is_comment l \<and> length (p2p_fields l) < 2 \<longrightarrow>
      parseP2PLine fs l (n, t) = (TooFewParts, n, t)"
    by (simp add: parseP2PLine_few)
  have eq: "parseP2PFilterFile from_string (\<lambda>_. False) (Readable ''sometag:1.2.3.4-1.2.3.9'') fresh
     = parseDATFilterFile from_string (\<lambda>_. False) (Readable ''1.2.3.4-1.2.3.9'') fresh"
    by (simp only: p2p_example dat_example_plain)
  from p2p dat same adds bad few p2p_example eq show ?thesis
    by (intro conjI)
qed

theorem p2p_as_dat_witness:
  "trimmed ''sometag:1.2.3.4-1.2.3.9'' \<noteq> [] \<and> \<not> is_comment ''sometag:1.2.3.4-1.2.3.9'' \<and>
   2 \<le> length (p2p_fields ''sometag:1.2.3.4-1.2.3.9'') \<and>
   trimmed ''1.2.3.4-1.2.3.9,50'' \<noteq> [] \<and> \<not> is_comment ''1.2.3.4-1.2.3.9,50'' \<and>
   fst (parseDATLine from_string ''1.2.3.4-1.2.3.9,50'' (0, fresh)) \<noteq> AccessTooHigh \<and>
   hd (dat_fields ''1.2.3.4-1.2.3.9,50'') = last (p2p_fields ''sometag:1.2.3.4-1.2.3.9'') \<and>
   parseP2PLine from_string ''sometag:1.2.3.4-1.2.3.9'' (0, fresh)
     = parseDATLine from_string ''1.2.3.4-1.2.3.9,50'' (0, fresh) \<and>
   trimmed ''tag: 1.2.3.4-1.2.3.9'' \<noteq> [] \<and> \<not> is_comment ''tag: 1.2.3.4-1.2.3.9'' \<and>
   2 \<le> length (p2p_fields ''tag: 1.2.3.4-1.2.3.9'') \<and>
   last (p2p_fields ''tag: 1.2.3.4-1.2.3.9'') = '' 1.2.3.4-1.2.3.9'' \<and>
   parseP2PLine from_string ''tag: 1.2.3.4-1.2.3.9'' (0, fresh)
     = (RuleAdded, 1, fresh\<lparr>m_filter := [(V4 0x01020304, V4 0x01020309)]\<rparr>)"
proof -
  have h1: "trimmed ''sometag:1.2.3.4-1.2.3.9'' \<noteq> []" by code_simp
  have h2: "\<not> is_comment ''sometag:1.2.3.4-1.2.3.9''" by code_simp
  have h3: "2 \<le> length (p2p_fields ''sometag:1.2.3.4-1.2.3.9'')" by code_simp
  have h4: "trimmed ''1.2.3.4-1.2.3.9,50'' \<noteq> []" by code_simp
  have h5: "\<not> is_comment ''1.2.3.4-1.2.3.9,50''" by code_simp
  have h6: "fst (parseDATLine from_string ''1.2.3.4-1.2.3.9,50'' (0, fresh)) \<noteq> AccessTooHigh"
    by code_simp
  have h7: "hd (dat_fields ''1.2.3.4-1.2.3.9,50'') = last (p2p_fields ''sometag:1.2.3.4-1.2.3.9'')"
    by code_simp
  have c: "parseP2PLine from_string ''sometag:1.2.3.4-1.2.3.9'' (0, fresh)
     = parseDATLine from_string ''1.2.3.4-1.2.3.9,50'' (0, fresh)"
    by (rule p2p_as_dat [of "''sometag:1.2.3.4-1.2.3.9''" from_string 0 fresh
            "''1.2.3.4-1.2.3.9,50''",
          THEN conjunct2, THEN conjunct2, THEN conjunct1, THEN mp])
       (intro conjI h1 h2 h3 h4 h5 h6 h7)
  have g1: "trimmed ''tag: 1.2.3.4-1.2.3.9'' \<noteq> []" by code_simp
  have g2: "\<not> is_comment ''tag: 1.2.3.4-1.2.3.9''" by code_simp
  have g3: "2 \<le> length (p2p_fields ''tag: 1.2.3.4-1.2.3.9'')" by code_simp
  have g4: "last (p2p_fields ''tag: 1.2.3.4-1.2.3.9'') = '' 1.2.3.4-1.2.3.9''" by code_simp
  have rs: "range_step from_string '' 1.2.3.4-1.2.3.9'' (0, fresh)
      = (RuleAdded, 1, fresh\<lparr>m_filter := [(V4 0x01020304, V4 0x01020309)]\<rparr>)"
    by code_simp
  have g: "trimmed ''tag: 1.2.3.4-1.2.3.9'' \<noteq> [] \<and> \<not> is_comment ''tag: 1.2.3.4-1.2.3.9'' \<and>
      2 \<le> length (p2p_fields ''tag: 1.2.3.4-1.2.3.9'')"
    using g1 g2 g3 by (intro conjI)
  have e: "parseP2PLine from_string ''tag: 1.2.3.4-1.2.3.9'' (0, fresh)
     = (RuleAdded, 1, fresh\<lparr>m_filter := [(V4 0x01020304, V4 0x01020309)]\<rparr>)"
    using p2p_as_dat [of "''tag: 1.2.3.4-1.2.3.9''" from_string 0 fresh,
        THEN conjunct1, THEN mp, OF g]
    by (simp only: g4 rs)
  from h1 h2 h3 h4 h5 h6 h7 c g1 g2 g3 g4 e show ?thesis by (intro conjI)
qed

subsection \<open>Unknown extensions and files that cannot be read\<close>

lemma run_emitted:
  "parse_by_extension fs ab u path f t = (n, t') \<Longrightarrow> \<not> ab (reads t') \<Longrightarrow>
     emitted (run fs ab u st path f t) =
       emitted t' @ (if st then [IPFilterParsed n, IPFilterError] else [IPFilterParsed n])"
  by (simp add: run_def tick_def)


lemma run_fields:
  "parse_by_extension fs ab u path f t = (n, t') \<Longrightarrow>
     m_filter (run fs ab u st path f t) = m_filter t' \<and>
     logger (run fs ab u st path f t) = logger t' \<and>
     reads (run fs ab u st path f t) = Suc (reads t')"
  by (simp add: run_def tick_def)

text \<open>
  Claim C9. When the path ends in none of \<^verbatim>\<open>.p2p\<close>, \<^verbatim>\<open>.p2b\<close>, \<^verbatim>\<open>.dat\<close>
  (letter case ignored), no parser runs: the thread state is untouched and the rule
  count is 0. The run started by \<^verbatim>\<open>processFilterFile\<close> then ends with the empty
  filter and nothing logged, after a single read of \<^verbatim>\<open>m_abort\<close>; when that read
  finds the flag clear (the run is not cancelled), \<^verbatim>\<open>IPFilterParsed(0)\<close> is emitted.
\<close>

theorem unknown_extension:
  "\<not> known_extension path \<longrightarrow>
     parse_by_extension fs ab u path f t = (0, t) \<and>
     m_filter (processFilterFile fs ab u st path f) = [] \<and>
     logger (processFilterFile fs ab u st path f) = [] \<and>
     reads (processFilterFile fs ab u st path f) = 1 \<and>
     (\<not> ab 0 \<longrightarrow>
        emitted (processFilterFile fs ab u st path f) =
          (if st then [IPFilterParsed 0, IPFilterError] else [IPFilterParsed 0]))"
proof
  assume k: "\<not> known_extension path"
  then have p: "\<And>t. parse_by_extension fs ab u path f t = (0, t)"
    by (simp add: parse_by_extension_def known_extension_def)
  have e: "\<not> ab 0 \<longrightarrow>
        emitted (processFilterFile fs ab u st path f) =
          (if st then [IPFilterParsed 0, IPFilterError] else [IPFilterParsed 0])"
    using run_emitted [OF p [of fresh], of st]
    by (simp add: processFilterFile_def fresh_def)
  from run_fields [OF p [of fresh], of st] p [of t] e
  show "parse_by_extension fs ab u path f t = (0, t) \<and>
     m_filter (processFilterFile fs ab u st path f) = [] \<and>
     logger (processFilterFile fs ab u st path f) = [] \<and>
     reads (processFilterFile fs ab u st path f) = 1 \<and>
     (\<not> ab 0 \<longrightarrow>
        emitted (processFilterFile fs ab u st path f) =
          (if st then [IPFilterParsed 0, IPFilterError] else [IPFilterParsed 0]))"
    by (simp add: processFilterFile_def fresh_def)
qed

theorem unknown_extension_witness:
  "\<not> known_extension ''ipfilter.txt'' \<and> \<not> (\<lambda>_. False) (0::nat) \<and>
   m_filter (processFilterFile from_string (\<lambda>_. False) zeroed False ''ipfilter.txt''
      (Readable ''1.2.3.4-1.2.3.9'')) = [] \<and>
   emitted (processFilterFile from_string (\<lambda>_. False) zeroed False ''ipfilter.txt''
      (Readable ''1.2.3.4-1.2.3.9'')) = [IPFilterParsed 0]"
proof -
  have h: "\<not> known_extension ''ipfilter.txt''" by code_simp
  from unknown_extension [of "''ipfilter.txt''" from_string "\<lambda>_. False" zeroed
      "Readable ''1.2.3.4-1.2.3.9''" fresh False, THEN mp, OF h]
  show ?thesis using h by simp
qed

subsection \<open>Files that are missing or cannot be opened\<close>

lemma no_file_parse:
  assumes "known_extension path" and "f = Missing \<or> f = Unopenable"
  shows "parse_by_extension fs ab u path f t =
           (0, if f = Unopenable then addMessage IOError t else t)"
  using assms
  by (auto simp: parse_by_extension_def known_extension_def parseP2PFilterFile_def
        parseP2BFilterFile_def parseDATFilterFile_def)

text \<open>
  Claim C3, as the spec states it, fails on a missing file: each parser returns at the
  \<^verbatim>\<open>exists()\<close> test before it logs anything, so a run on a missing file leaves the
  log empty, for each of the three formats.
\<close>

theorem missing_file_not_reported:
  "IOError \<notin> set (logger (processFilterFile from_string (\<lambda>_. False) zeroed False
       ''ipfilter.dat'' Missing)) \<and>
   logger (processFilterFile from_string (\<lambda>_. False) zeroed False ''ipfilter.dat'' Missing) = [] \<and>
   logger (processFilterFile from_string (\<lambda>_. False) zeroed False ''ipfilter.p2p'' Missing) = [] \<and>
   logger (processFilterFile from_string (\<lambda>_. False) zeroed False ''ipfilter.p2b'' Missing) = []"
proof -
  have k: "known_extension ''ipfilter.dat''" "known_extension ''ipfilter.p2p''"
    "known_extension ''ipfilter.p2b''"
    by code_simp+
  show ?thesis
    using k [THEN no_file_parse, of Missing from_string "\<lambda>_. False" zeroed fresh]
    by (simp add: processFilterFile_def run_def tick_def fresh_def)
qed

text \<open>
  Claim C3, amended. For a path with one of the three extensions: when the file exists
  but cannot be opened for reading, the I/O error is logged; when the file is missing,
  nothing is logged. In both cases the parser returns rule count 0, the filter stays
  empty, and, when the read of \<^verbatim>\<open>m_abort\<close> finds the flag clear (the run is not
  cancelled), \<^verbatim>\<open>IPFilterParsed(0)\<close> is emitted; \<^verbatim>\<open>IPFilterError\<close> follows only when
  delivering that signal raises an exception.
\<close>

theorem io_failure:
  "(known_extension path \<and> (f = Missing \<or> f = Unopenable) \<longrightarrow>
      parse_by_extension fs ab u path f t =
        (0, if f = Unopenable then addMessage IOError t else t) \<and>
      m_filter (processFilterFile fs ab u st path f) = [] \<and>
      logger (processFilterFile fs ab u st path f) = (if f = Unopenable then [IOError] else []) \<and>
      (\<not> ab 0 \<longrightarrow>
         emitted (processFilterFile fs ab u st path f) =
           (if st then [IPFilterParsed 0, IPFilterError] else [IPFilterParsed 0]))) \<and>
   parseDATFilterFile fs ab Missing t = (0, t) \<and>
   parseP2PFilterFile fs ab Missing t = (0, t) \<and>
   parseP2BFilterFile ab u Missing t = (0, t) \<and>
   parseDATFilterFile fs ab Unopenable t = (0, addMessage IOError t) \<and>
   parseP2PFilterFile fs ab Unopenable t = (0, addMessage IOError t) \<and>
   parseP2BFilterFile ab u Unopenable t = (0, addMessage IOError t)"
proof -
  have r: "known_extension path \<and> (f = Missing \<or> f = Unopenable) \<longrightarrow>
      parse_by_extension fs ab u path f t =
        (0, if f = Unopenable then addMessage IOError t else t) \<and>
      m_filter (processFilterFile fs ab u st path f) = [] \<and>
      logger (processFilterFile fs ab u st path f) = (if f = Unopenable then [IOError] else []) \<and>
      (\<not> ab 0 \<longrightarrow>
         emitted (processFilterFile fs ab u st path f) =
           (if st then [IPFilterParsed 0, IPFilterError] else [IPFilterParsed 0]))"
  proof
    assume a: "known_extension path \<and> (f = Missing \<or> f = Unopenable)"
    then have p: "\<And>t. parse_by_extension fs ab u path f t =
        (0, if f = Unopenable then addMessage IOError t else t)"
      by (simp add: no_file_parse)
    have e: "\<not> ab 0 \<longrightarrow>
         emitted (processFilterFile fs ab u st path f) =
           (if st then [IPFilterParsed 0, IPFilterError] else [IPFilterParsed 0])"
      using run_emitted [OF p [of fresh], of st]
      by (simp add: processFilterFile_def fresh_def addMessage_def)
    from run_fields [OF p [of fresh], of st] p [of t] e
    show "parse_by_extension fs ab u path f t =
        (0, if f = Unopenable then addMessage IOError t else t) \<and>
      m_filter (processFilterFile fs ab u st path f) = [] \<and>
      logger (processFilterFile fs ab u st path f) = (if f = Unopenable then [IOError] else []) \<and>
      (\<not> ab 0 \<longrightarrow>
         emitted (processFilterFile fs ab u st path f) =
           (if st then [IPFilterParsed 0, IPFilterError] else [IPFilterParsed 0]))"
      by (simp add: processFilterFile_def fresh_def addMessage_def)
  qed
  show ?thesis
    by (intro conjI r)
       (simp_all add: parseDATFilterFile_def parseP2PFilterFile_def parseP2BFilterFile_def)
qed

theorem io_failure_witness:
  "known_extension ''ipfilter.P2B'' \<and> (Unopenable = Missing \<or> Unopenable = Unopenable) \<and>
   \<not> (\<lambda>_. False) (0::nat) \<and>
   logger (processFilterFile from_string (\<lambda>_. False) zeroed False ''ipfilter.P2B'' Unopenable)
     = [IOError] \<and>
   emitted (processFilterFile from_string (\<lambda>_. False) zeroed False ''ipfilter.P2B'' Unopenable)
     = [IPFilterParsed 0]"
proof -
  have h: "known_extension ''ipfilter.P2B'' \<and> (Unopenable = Missing \<or> Unopenable = Unopenable)"
    by code_simp
  from io_failure [of "''ipfilter.P2B''" Unopenable from_string "\<lambda>_. False" zeroed fresh False,
      THEN conjunct1, THEN mp, OF h]
  show ?thesis using h by simp
qed

subsection \<open>The header of a P2B file\<close>

lemma p2b_bad_header:
  assumes "\<not> (8 \<le> length dev \<and> take 7 dev = p2b_magic)"
  shows "parseP2BFilterFile ab u (Readable dev) t = (0, addMessage ParsingError t)"
proof (cases "length dev \<le> 7")
  case True
  then show ?thesis
    by (simp add: parseP2BFilterFile_def readRawData_def)
next
  case False
  with assms have "take 7 dev \<noteq> p2b_magic" by simp
  with False show ?thesis
    by (simp add: parseP2BFilterFile_def readRawData_def min_def)
qed

lemma p2b_good_header:
  assumes "8 \<le> length dev" and "take 7 dev = p2b_magic"
  shows "parseP2BFilterFile ab u (Readable dev) t =
           (if dev ! 7 = CHR 0x01 \<or> dev ! 7 = CHR 0x02
              then p2b_v12_loop ab (drop 8 dev) ([], u_start u, u_end u) (0, t)
            else if dev ! 7 = CHR 0x03 then p2b_v3 ab u (drop 8 dev) t
            else (0, addMessage ParsingError t))"
proof -
  from assms(1) have v: "take (Suc 0) (drop 7 dev) = [dev ! 7]"
    by (simp add: take_Suc_conv_app_nth)
  have len: "length p2b_magic = 7"
    by (simp add: p2b_magic_def)
  from assms show ?thesis
    by (simp add: parseP2BFilterFile_def readRawData_def min_def v len)
qed

text \<open>
  Claim C5. The parser accepts a file only when it has at least eight bytes and the
  first seven are the magic bytes \<^verbatim>\<open>FF FF FF FF 50 32 42\<close>: otherwise it logs the
  parsing error and returns at once with rule count 0, the filter untouched and the abort
  flag never read, whatever the uninitialised buffer held. With a good header, a version
  byte other than 1, 2, 3 gives the same result; versions 1 and 2 enter their loop and
  version 3 its two loops, on the bytes after the header.
\<close>

theorem p2b_header:
  "(\<not> (8 \<le> length dev \<and> take 7 dev = p2b_magic) \<longrightarrow>
      parseP2BFilterFile ab u (Readable dev) t = (0, addMessage ParsingError t)) \<and>
   (8 \<le> length dev \<and> take 7 dev = p2b_magic \<and>
    dev ! 7 \<noteq> CHR 0x01 \<and> dev ! 7 \<noteq> CHR 0x02 \<and> dev ! 7 \<noteq> CHR 0x03 \<longrightarrow>
      parseP2BFilterFile ab u (Readable dev) t = (0, addMessage ParsingError t)) \<and>
   (8 \<le> length dev \<and> take 7 dev = p2b_magic \<and> (dev ! 7 = CHR 0x01 \<or> dev ! 7 = CHR 0x02) \<longrightarrow>
      parseP2BFilterFile ab u (Readable dev) t =
        p2b_v12_loop ab (drop 8 dev) ([], u_start u, u_end u) (0, t)) \<and>
   (8 \<le> length dev \<and> take 7 dev = p2b_magic \<and> dev ! 7 = CHR 0x03 \<longrightarrow>
      parseP2BFilterFile ab u (Readable dev) t = p2b_v3 ab u (drop 8 dev) t) \<and>
   m_filter (addMessage ParsingError t) = m_filter t \<and>
   reads (addMessage ParsingError t) = reads t \<and>
   logger (addMessage ParsingError t) = logger t @ [ParsingError]"
  by (simp add: p2b_bad_header p2b_good_header addMessage_def)

theorem p2b_header_witness:
  "\<not> (8 \<le> length ''P2B'' \<and> take 7 ''P2B'' = p2b_magic) \<and>
   parseP2BFilterFile (\<lambda>_. False) zeroed (Readable ''P2B'') fresh
     = (0, addMessage ParsingError fresh) \<and>
   8 \<le> length (p2b_magic @ [CHR 0x09, CHR ''a'', CHR 0x00]) \<and>
   take 7 (p2b_magic @ [CHR 0x09, CHR ''a'', CHR 0x00]) = p2b_magic \<and>
   (p2b_magic @ [CHR 0x09, CHR ''a'', CHR 0x00]) ! 7 \<noteq> CHR 0x01 \<and>
   (p2b_magic @ [CHR 0x09, CHR ''a'', CHR 0x00]) ! 7 \<noteq> CHR 0x02 \<and>
   (p2b_magic @ [CHR 0x09, CHR ''a'', CHR 0x00]) ! 7 \<noteq> CHR 0x03 \<and>
   parseP2BFilterFile (\<lambda>_. False) zeroed (Readable (p2b_magic @ [CHR 0x09, CHR ''a'', CHR 0x00])) fresh
     = (0, addMessage ParsingError fresh)"
proof -
  have h1: "\<not> (8 \<le> length ''P2B'' \<and> take 7 ''P2B'' = p2b_magic)"
    by simp
  have h2: "8 \<le> length (p2b_magic @ [CHR 0x09, CHR ''a'', CHR 0x00]) \<and>
    take 7 (p2b_magic @ [CHR 0x09, CHR ''a'', CHR 0x00]) = p2b_magic \<and>
    (p2b_magic @ [CHR 0x09, CHR ''a'', CHR 0x00]) ! 7 \<noteq> CHR 0x01 \<and>
    (p2b_magic @ [CHR 0x09, CHR ''a'', CHR 0x00]) ! 7 \<noteq> CHR 0x02 \<and>
    (p2b_magic @ [CHR 0x09, CHR ''a'', CHR 0x00]) ! 7 \<noteq> CHR 0x03"
    by (simp add: p2b_magic_def)
  have a: "parseP2BFilterFile (\<lambda>_. False) zeroed (Readable ''P2B'') fresh
     = (0, addMessage ParsingError fresh)"
    by (rule p2b_header [of "''P2B''" "\<lambda>_. False" zeroed fresh, THEN conjunct1, THEN mp, OF h1])
  have b: "parseP2BFilterFile (\<lambda>_. False) zeroed
        (Readable (p2b_magic @ [CHR 0x09, CHR ''a'', CHR 0x00])) fresh
     = (0, addMessage ParsingError fresh)"
    by (rule p2b_header [of "p2b_magic @ [CHR 0x09, CHR ''a'', CHR 0x00]" "\<lambda>_. False" zeroed fresh,
          THEN conjunct2, THEN conjunct1, THEN mp, OF h2])
  from h1 a h2 b show ?thesis by simp
qed

subsection \<open>Records of a P2B file and short reads\<close>

lemma magic_take: "take 7 (p2b_magic @ rest) = p2b_magic"
  by (simp add: p2b_magic_def)

lemma magic_len: "7 \<le> length (p2b_magic @ rest)" "length p2b_magic = 7"
  by (simp_all add: p2b_magic_def)

lemma magic_nth: "(p2b_magic @ v # rest) ! 7 = v" "drop 8 (p2b_magic @ v # rest) = rest"
  by (simp_all add: p2b_magic_def)

text \<open>
  With complete records the loop of versions 1 and 2 does what the format asks for: it
  ends without an error at the end of the file, and a name followed by two 4-byte values
  adds the rule between the big-endian readings of the two.
\<close>

lemma ntohl_bytes:
  "ntohl [a, b, c, d] =
     push_bit 24 (of_char a) OR push_bit 16 (of_char b) OR push_bit 8 (of_char c) OR of_char d"
  by (simp add: ntohl_def push_bit_or ac_simps)

lemma getline_loop_name:
  "delim \<notin> set nm \<Longrightarrow>
     getline_loop (nm @ delim # rest) name delim n = (n + int (length nm) + 1, name @ nm, rest)"
  by (induction nm arbitrary: name n) auto

lemma p2b_v12_loop_eof: "p2b_v12_loop ab [] (name, startv, endv) (n, t) = (n, t)"
  by (subst p2b_v12_loop.simps) (simp add: getlineInStream_def)

lemma p2b_v12_loop_record:
  assumes "CHR 0x00 \<notin> set nm" and "length sv = 4" and "length ev = 4" and "\<not> ab (reads t)"
  shows "p2b_v12_loop ab (nm @ CHR 0x00 # sv @ ev @ rest) (name, startv, endv) (n, t) =
           p2b_v12_loop ab rest (name @ nm, sv, ev)
             (n + 1, (tick t)\<lparr>m_filter := m_filter t @ [(V4 (ntohl sv), V4 (ntohl ev))]\<rparr>)"
  using assms
  by (subst p2b_v12_loop.simps)
     (simp add: getlineInStream_def getline_loop_name readRawData_def add_rule_def tick_def)

lemma p2b_v12_one_record:
  "parseP2BFilterFile (\<lambda>_. False) u
     (Readable (p2b_magic @ CHR 0x01 # ''range'' @ CHR 0x00 #
        [CHR 0x01, CHR 0x02, CHR 0x03, CHR 0x04] @ [CHR 0x01, CHR 0x02, CHR 0x03, CHR 0x09] @ [])) fresh
   = (1, fresh\<lparr>m_filter := [(V4 0x01020304, V4 0x01020309)], reads := 1\<rparr>)"
proof -
  have "parseP2BFilterFile (\<lambda>_. False) u
     (Readable (p2b_magic @ CHR 0x01 # ''range'' @ CHR 0x00 #
        [CHR 0x01, CHR 0x02, CHR 0x03, CHR 0x04] @ [CHR 0x01, CHR 0x02, CHR 0x03, CHR 0x09] @ [])) fresh
    = p2b_v12_loop (\<lambda>_. False) (''range'' @ CHR 0x00 #
        [CHR 0x01, CHR 0x02, CHR 0x03, CHR 0x04] @ [CHR 0x01, CHR 0x02, CHR 0x03, CHR 0x09] @ [])
        ([], u_start u, u_end u) (0, fresh)"
    by (subst p2b_good_header) (simp_all add: magic_take magic_nth magic_len)
  also have "\<dots> = p2b_v12_loop (\<lambda>_. False) []
      ([] @ ''range'', [CHR 0x01, CHR 0x02, CHR 0x03, CHR 0x04], [CHR 0x01, CHR 0x02, CHR 0x03, CHR 0x09])
      (0 + 1, (tick fresh)\<lparr>m_filter := m_filter fresh @
          [(V4 (ntohl [CHR 0x01, CHR 0x02, CHR 0x03, CHR 0x04]),
            V4 (ntohl [CHR 0x01, CHR 0x02, CHR 0x03, CHR 0x09]))]\<rparr>)"
    by (rule p2b_v12_loop_record) simp_all
  also have "\<dots> = (1, fresh\<lparr>m_filter := [(V4 0x01020304, V4 0x01020309)], reads := 1\<rparr>)"
    by (simp add: p2b_v12_loop_eof ntohl_bytes tick_def fresh_def)
  finally show ?thesis .
qed

lemma p2b_v3_complete:
  "parseP2BFilterFile (\<lambda>_. False) u
     (Readable (p2b_magic @ [CHR 0x03,
        CHR 0x00, CHR 0x00, CHR 0x00, CHR 0x01, CHR ''x'', CHR 0x00,
        CHR 0x00, CHR 0x00, CHR 0x00, CHR 0x01,
        CHR 0x00, CHR 0x00, CHR 0x00, CHR 0x00, CHR 0x01, CHR 0x02, CHR 0x03, CHR 0x04,
        CHR 0x01, CHR 0x02, CHR 0x03, CHR 0x09])) fresh
   = (1, fresh\<lparr>m_filter := [(V4 0x01020304, V4 0x01020309)], reads := 2\<rparr>)"
proof -
  have "parseP2BFilterFile (\<lambda>_. False) u
     (Readable (p2b_magic @ [CHR 0x03,
        CHR 0x00, CHR 0x00, CHR 0x00, CHR 0x01, CHR ''x'', CHR 0x00,
        CHR 0x00, CHR 0x00, CHR 0x00, CHR 0x01,
        CHR 0x00, CHR 0x00, CHR 0x00, CHR 0x00, CHR 0x01, CHR 0x02, CHR 0x03, CHR 0x04,
        CHR 0x01, CHR 0x02, CHR 0x03, CHR 0x09])) fresh
    = p2b_v3 (\<lambda>_. False) u
        [CHR 0x00, CHR 0x00, CHR 0x00, CHR 0x01, CHR ''x'', CHR 0x00,
         CHR 0x00, CHR 0x00, CHR 0x00, CHR 0x01,
         CHR 0x00, CHR 0x00, CHR 0x00, CHR 0x00, CHR 0x01, CHR 0x02, CHR 0x03, CHR 0x04,
         CHR 0x01, CHR 0x02, CHR 0x03, CHR 0x09] fresh"
    by (subst p2b_good_header) (simp_all add: magic_take magic_nth magic_len)
  also have "\<dots> = (1, fresh\<lparr>m_filter := [(V4 0x01020304, V4 0x01020309)], reads := 2\<rparr>)"
    by (simp add: p2b_v3_def readRawData_def ntohl_def getlineInStream_def add_rule_def
          fresh_def tick_def)
  finally show ?thesis .
qed

text \<open>
  The parser tests the result of \<^verbatim>\<open>readRawData\<close> against 0 only, so a read that
  returns fewer bytes than asked for counts as a success, and the variable keeps its
  old bytes behind the ones read.

  Claim C2 at a file cut inside a record: header, version 1, the name \<^verbatim>\<open>a\<close>, the
  four bytes of \<^verbatim>\<open>start\<close> and one byte of \<^verbatim>\<open>end\<close>. Whatever the stack held, the
  parser logs nothing and returns rule count 1, with a rule whose end is the byte read
  followed by the three bytes that the uninitialised variable held.
\<close>

theorem p2b_v12_short_read:
  "parseP2BFilterFile (\<lambda>_. False) u
     (Readable (p2b_magic @ [CHR 0x01, CHR ''a'', CHR 0x00,
                             CHR 0x01, CHR 0x02, CHR 0x03, CHR 0x04, CHR 0x05])) fresh
   = (1, fresh\<lparr>m_filter := [(V4 0x01020304, V4 (ntohl (CHR 0x05 # drop 1 (take 4 (u_end u)))))],
               reads := 1\<rparr>)"
proof -
  have "parseP2BFilterFile (\<lambda>_. False) u
     (Readable (p2b_magic @ [CHR 0x01, CHR ''a'', CHR 0x00,
                             CHR 0x01, CHR 0x02, CHR 0x03, CHR 0x04, CHR 0x05])) fresh
    = p2b_v12_loop (\<lambda>_. False) [CHR ''a'', CHR 0x00, CHR 0x01, CHR 0x02, CHR 0x03, CHR 0x04, CHR 0x05]
        ([], u_start u, u_end u) (0, fresh)"
    by (subst p2b_good_header) (simp_all add: magic_take magic_nth magic_len)
  also have "\<dots> = p2b_v12_loop (\<lambda>_. False) []
        (''a'', [CHR 0x01, CHR 0x02, CHR 0x03, CHR 0x04] , CHR 0x05 # drop 1 (take 4 (u_end u)))
        (1, (tick fresh)\<lparr>m_filter := [(V4 0x01020304, V4 (ntohl (CHR 0x05 # drop 1 (take 4 (u_end u)))))]\<rparr>)"
    by (subst p2b_v12_loop.simps)
       (simp add: getlineInStream_def readRawData_def add_rule_def ntohl_def fresh_def tick_def)
  also have "\<dots> = (1, (tick fresh)\<lparr>m_filter := [(V4 0x01020304, V4 (ntohl (CHR 0x05 # drop 1 (take 4 (u_end u)))))]\<rparr>)"
    by (subst p2b_v12_loop.simps) (simp add: getlineInStream_def)
  finally show ?thesis by (simp add: tick_def fresh_def)
qed

text \<open>
  Claim C6 at a version 3 file cut inside its last range record: one name, range count
  1, and a record with its name index, its \<^verbatim>\<open>start\<close> and two bytes of \<^verbatim>\<open>end\<close>.
  Whatever the stack held, the parser logs nothing and returns rule count 1, with a rule
  whose end is the two bytes read followed by the two bytes that the uninitialised
  variable held.
\<close>

theorem p2b_v3_short_read:
  "parseP2BFilterFile (\<lambda>_. False) u
     (Readable (p2b_magic @ [CHR 0x03,
        CHR 0x00, CHR 0x00, CHR 0x00, CHR 0x01, CHR ''x'', CHR 0x00,
        CHR 0x00, CHR 0x00, CHR 0x00, CHR 0x01,
        CHR 0x00, CHR 0x00, CHR 0x00, CHR 0x00, CHR 0x01, CHR 0x02, CHR 0x03, CHR 0x04,
        CHR 0x01, CHR 0x02])) fresh
   = (1, fresh\<lparr>m_filter :=
            [(V4 0x01020304, V4 (ntohl (CHR 0x01 # CHR 0x02 # drop 2 (take 4 (u_end u)))))],
          reads := 2\<rparr>)"
proof -
  have "parseP2BFilterFile (\<lambda>_. False) u
     (Readable (p2b_magic @ [CHR 0x03,
        CHR 0x00, CHR 0x00, CHR 0x00, CHR 0x01, CHR ''x'', CHR 0x00,
        CHR 0x00, CHR 0x00, CHR 0x00, CHR 0x01,
        CHR 0x00, CHR 0x00, CHR 0x00, CHR 0x00, CHR 0x01, CHR 0x02, CHR 0x03, CHR 0x04,
        CHR 0x01, CHR 0x02])) fresh
    = p2b_v3 (\<lambda>_. False) u
        [CHR 0x00, CHR 0x00, CHR 0x00, CHR 0x01, CHR ''x'', CHR 0x00,
         CHR 0x00, CHR 0x00, CHR 0x00, CHR 0x01,
         CHR 0x00, CHR 0x00, CHR 0x00, CHR 0x00, CHR 0x01, CHR 0x02, CHR 0x03, CHR 0x04,
         CHR 0x01, CHR 0x02] fresh"
    by (subst p2b_good_header) (simp_all add: magic_take magic_nth magic_len)
  also have "\<dots> = (1, fresh\<lparr>m_filter :=
            [(V4 0x01020304, V4 (ntohl (CHR 0x01 # CHR 0x02 # drop 2 (take 4 (u_end u)))))],
          reads := 2\<rparr>)"
    by (simp add: p2b_v3_def readRawData_def ntohl_def getlineInStream_def add_rule_def
          fresh_def tick_def)
       (simp add: numeral_2_eq_2)
  finally show ?thesis .
qed

subsection \<open>Rule counts and filters under cancellation\<close>

lemma continues_refl [simp]: "continues s s"
  by (simp add: continues_def)



lemma continues_tick [simp]: "continues (n, tick t) s \<longleftrightarrow> continues (n, t) s"
  "continues s (n, tick t) \<longleftrightarrow> continues s (n, t)"
  by (simp_all add: continues_def tick_def)

lemma continues_addMessage [simp]: "continues s (n, addMessage m t) \<longleftrightarrow> continues s (n, t)"
  by (simp add: continues_def addMessage_def)


lemma continues_add:
  "continues (n, t) (n + 1, t\<lparr>m_filter := m_filter t @ [r]\<rparr>)"
  by (simp add: continues_def)








































end
